theory Spec2Isabelle
  imports Main "HOL-Library.AList"
begin

section \<open>JavaScript values\<close>

text \<open>
  The values that travel through \<^verbatim>\<open>helper/fieldsHelper.js\<close>. A plain object is an
  association list in insertion order; numbers are abstracted to integers plus
  \<open>NaN\<close> (only their truthiness is ever inspected); \<open>Other\<close> stands for
  every object that is neither a plain object nor an array (functions, dates, class
  instances). Values are trees: two override entries are taken to be distinct objects,
  as the object literals of a configuration file are.
\<close>

datatype jsval =
    Undefined
  | Null
  | Bool bool
  | Num int
  | NaN
  | Str string
  | Obj "(string \<times> jsval) list"
  | Arr "jsval list"
  | Other

type_synonym props = "(string \<times> jsval) list"

text \<open>
  The own property \<open>k\<close> of an object, \<open>undefined\<close> when it has none. This is the
  whole of \<^verbatim>\<open>obj.k\<close> for the fixed names the helper reads (\<^verbatim>\<open>key\<close>,
  \<^verbatim>\<open>title\<close>, \<^verbatim>\<open>required\<close>, \<^verbatim>\<open>type\<close>, \<^verbatim>\<open>collection\<close>, \<^verbatim>\<open>model\<close>,
  \<^verbatim>\<open>config\<close>), none of which \<^verbatim>\<open>Object.prototype\<close> defines.
\<close>

definition get :: "props \<Rightarrow> string \<Rightarrow> jsval" where
  "get ps k = (case map_of ps k of None \<Rightarrow> Undefined | Some v \<Rightarrow> v)"

text \<open>
  The function-valued members that every plain object inherits from
  \<^verbatim>\<open>Object.prototype\<close>. The accessor \<^verbatim>\<open>__proto__\<close> is left out: an object
  literal cannot define it as an own property, so it is not the name of a field here.
\<close>

definition objectPrototype :: "string list" where
  "objectPrototype =
     [''constructor'', ''toString'', ''toLocaleString'', ''valueOf'', ''hasOwnProperty'',
      ''isPrototypeOf'', ''propertyIsEnumerable'', ''__defineGetter__'', ''__defineSetter__'',
      ''__lookupGetter__'', ''__lookupSetter__'']"

text \<open>
  \<^verbatim>\<open>obj[k]\<close> for a name \<open>k\<close> computed at run time, as in
  \<^verbatim>\<open>fieldsConfig[key]\<close>: the own property when the object has one (whatever its
  value, \<open>undefined\<close> included), otherwise the inherited member, a function, when
  \<open>k\<close> names one, otherwise \<open>undefined\<close>.
\<close>

definition lookup :: "props \<Rightarrow> string \<Rightarrow> jsval" where
  "lookup ps k =
     (case map_of ps k of
        Some v \<Rightarrow> v
      | None \<Rightarrow> if k \<in> set objectPrototype then Other else Undefined)"

text \<open>\<^verbatim>\<open>obj[k] = v\<close>: an existing property keeps its place, a new one goes last.\<close>

definition put :: "props \<Rightarrow> string \<Rightarrow> jsval \<Rightarrow> props" where
  "put ps k v = AList.update k v ps"

text \<open>
  \<^verbatim>\<open>val.name\<close> for the names read by the helper (\<^verbatim>\<open>collection\<close>,
  \<^verbatim>\<open>model\<close>, \<^verbatim>\<open>required\<close>, \<^verbatim>\<open>type\<close>) on a plain object or a string;
  a string has none of them.
\<close>

definition readProp :: "jsval \<Rightarrow> string \<Rightarrow> jsval" where
  "readProp val name = (case val of Obj ps \<Rightarrow> get ps name | _ \<Rightarrow> Undefined)"

text \<open>JavaScript's \<^verbatim>\<open>ToBoolean\<close>.\<close>

fun truthy :: "jsval \<Rightarrow> bool" where
  "truthy Undefined = False"
| "truthy Null = False"
| "truthy (Bool b) = b"
| "truthy (Num n) = (n \<noteq> 0)"
| "truthy NaN = False"
| "truthy (Str s) = (s \<noteq> [])"
| "truthy (Obj ps) = True"
| "truthy (Arr vs) = True"
| "truthy Other = True"

text \<open>\<^verbatim>\<open>a || b\<close> yields \<open>a\<close> when it is truthy and \<open>b\<close> otherwise.\<close>

definition js_or :: "jsval \<Rightarrow> jsval \<Rightarrow> jsval" where
  "js_or a b = (if truthy a then a else b)"

subsection \<open>The lodash predicates used by the helper\<close>

definition isUndefined :: "jsval \<Rightarrow> bool" where
  "isUndefined v = (v = Undefined)"

definition isBoolean :: "jsval \<Rightarrow> bool" where
  "isBoolean v = (case v of Bool b \<Rightarrow> True | _ \<Rightarrow> False)"

definition isString :: "jsval \<Rightarrow> bool" where
  "isString v = (case v of Str s \<Rightarrow> True | _ \<Rightarrow> False)"

definition isPlainObject :: "jsval \<Rightarrow> bool" where
  "isPlainObject v = (case v of Obj ps \<Rightarrow> True | _ \<Rightarrow> False)"

subsection \<open>lodash \<^verbatim>\<open>_.merge\<close>\<close>

text \<open>
  \<^verbatim>\<open>_.merge(object, source)\<close> copies the own properties of \<open>source\<close> that are not
  \<open>undefined\<close> into \<open>object\<close>, recursing into plain objects and arrays; a source
  that is not an object (the \<open>false\<close> of the normalizer) leaves \<open>object\<close> as it is.
  \<open>mergeValue d s\<close> is the new value of a destination property holding \<open>d\<close>
  when the source property holds \<open>s\<close>.
\<close>

fun mergeValue :: "jsval \<Rightarrow> jsval \<Rightarrow> jsval"
  and mergeProps :: "props \<Rightarrow> props \<Rightarrow> props"
  and mergeElems :: "jsval list \<Rightarrow> jsval list \<Rightarrow> jsval list" where
  "mergeValue d Undefined = d"
| "mergeValue d (Obj sp) = Obj (mergeProps (case d of Obj dp \<Rightarrow> dp | _ \<Rightarrow> []) sp)"
| "mergeValue d (Arr se) = Arr (mergeElems (case d of Arr de \<Rightarrow> de | _ \<Rightarrow> []) se)"
| "mergeValue d Null = Null"
| "mergeValue d (Bool b) = Bool b"
| "mergeValue d (Num n) = Num n"
| "mergeValue d NaN = NaN"
| "mergeValue d (Str s) = Str s"
| "mergeValue d Other = Other"
| "mergeProps dp [] = dp"
| "mergeProps dp ((k, s) # sp) =
     mergeProps (if s = Undefined then dp else put dp k (mergeValue (get dp k) s)) sp"
| "mergeElems de [] = de"
| "mergeElems [] (s # se) = mergeValue Undefined s # mergeElems [] se"
| "mergeElems (d # de) (s # se) = mergeValue d s # mergeElems de se"

definition merge :: "props \<Rightarrow> jsval \<Rightarrow> props" where
  "merge object source = (case source of Obj sp \<Rightarrow> mergeProps object sp | _ \<Rightarrow> object)"

section \<open>The notation normalizer\<close>

text \<open>
  \<open>InvalidArgument\<close> is the \<^verbatim>\<open>Error('No `config` or `key` passed !')\<close> thrown by
  the normalizer; \<open>TypeError\<close> is what strict mode throws when a property is assigned
  on a value that is not an object.
\<close>

datatype error = InvalidArgument | TypeError

text \<open>
  \<^verbatim>\<open>_normalizeFieldConfig(config, key)\<close>. A thrown error is \<open>Inl\<close>. A normal
  return is \<open>Inr (r, c)\<close>: \<open>r\<close> is the returned value and \<open>c\<close> is the
  argument \<open>config\<close> as the call leaves it. The object branch assigns
  \<^verbatim>\<open>config.key\<close> and \<^verbatim>\<open>config.title\<close> in place and returns that same
  object, so there both components are the updated object.
\<close>

definition normalizeFieldConfig :: "jsval \<Rightarrow> jsval \<Rightarrow> error + (jsval \<times> jsval)" where
  "normalizeFieldConfig config key =
     (if isUndefined config \<or> isUndefined key then Inl InvalidArgument
      else if isBoolean config then
        (if \<not> truthy config then Inr (Bool False, config)
         else Inr (Obj [(''key'', key), (''title'', key)], config))
      else if isString config then
        Inr (Obj [(''key'', key), (''title'', config)], config)
      else case config of
        Obj ps \<Rightarrow>
          (let ps1 = (if \<not> truthy (get ps ''key'') then put ps ''key'' key else ps);
               ps2 = (if \<not> truthy (get ps1 ''title'') then put ps1 ''title'' key else ps1)
           in Inr (Obj ps2, Obj ps2))
      | _ \<Rightarrow> Inr (Bool False, config))"

section \<open>The field resolver\<close>

text \<open>
  What \<^verbatim>\<open>_prepareField\<close> reads and writes besides its arguments: the
  \<^verbatim>\<open>result\<close> object under construction, and the two override objects
  \<^verbatim>\<open>fieldsConfig\<close> (global layer) and \<^verbatim>\<open>actionConfig.fields\<close> (action layer),
  whose entries the normalizer may update in place.
\<close>

record resolver_state =
  result :: props
  fieldsConfig :: props
  actionFields :: props

text \<open>
  Lines 207 to 215, the global layer. The working triple is
  (\<^verbatim>\<open>fldConfig\<close>, \<^verbatim>\<open>ignoreField\<close>, state). The normalizer writes to a plain
  object only, and that object is the one the map holds under \<open>key\<close>; nothing is
  written for any other value.
\<close>

definition globalLayer ::
  "string \<Rightarrow> props \<times> bool \<times> resolver_state \<Rightarrow> error + (props \<times> bool \<times> resolver_state)" where
  "globalLayer key w =
     (case w of (fldConfig, ignoreField, st) \<Rightarrow>
        let g = lookup (fieldsConfig st) key in
        if truthy g \<or> g = Bool False then
          (if g = Bool False then Inr (fldConfig, True, st)
           else case normalizeFieldConfig g (Str key) of
                  Inl e \<Rightarrow> Inl e
                | Inr (tmpCfg, g') \<Rightarrow>
                    Inr (merge fldConfig tmpCfg, ignoreField,
                         st\<lparr>fieldsConfig := (if isPlainObject g'
                                             then put (fieldsConfig st) key g'
                                             else fieldsConfig st)\<rparr>))
        else Inr (fldConfig, ignoreField, st))"

text \<open>Lines 217 to 226, the action layer; a normalized override resets \<^verbatim>\<open>ignoreField\<close>.\<close>

definition actionLayer ::
  "string \<Rightarrow> props \<times> bool \<times> resolver_state \<Rightarrow> error + (props \<times> bool \<times> resolver_state)" where
  "actionLayer key w =
     (case w of (fldConfig, ignoreField, st) \<Rightarrow>
        let a = lookup (actionFields st) key in
        if truthy a \<or> a = Bool False then
          (if a = Bool False then Inr (fldConfig, True, st)
           else case normalizeFieldConfig a (Str key) of
                  Inl e \<Rightarrow> Inl e
                | Inr (tmpCfg, a') \<Rightarrow>
                    Inr (merge fldConfig tmpCfg, False,
                         st\<lparr>actionFields := (if isPlainObject a'
                                             then put (actionFields st) key a'
                                             else actionFields st)\<rparr>))
        else Inr (fldConfig, ignoreField, st))"

text \<open>
  Lines 227 to 243: a field still ignored is dropped; otherwise the working config is
  normalized once more, \<^verbatim>\<open>required\<close> and \<^verbatim>\<open>type\<close> are filled in and the
  entry is stored under \<^verbatim>\<open>result[key]\<close>.
\<close>

definition emitField ::
  "jsval \<Rightarrow> string \<Rightarrow> props \<times> bool \<times> resolver_state \<Rightarrow> error + resolver_state" where
  "emitField modelField key w =
     (case w of (fldConfig, ignoreField, st) \<Rightarrow>
        if ignoreField then Inr st
        else (case normalizeFieldConfig (Obj fldConfig) (Str key) of
                Inl e \<Rightarrow> Inl e
              | Inr rc \<Rightarrow>
                  (case fst rc of
                     Obj c0 \<Rightarrow>
                       (let c1 = put c0 ''required''
                                   (Bool (truthy (js_or (get c0 ''required'')
                                                        (readProp modelField ''required''))));
                            c2 = put c1 ''type''
                                   (js_or (get c1 ''type'') (readProp modelField ''type''))
                        in Inr (st\<lparr>result := put (result st) key
                                       (Obj [(''config'', Obj c2), (''model'', modelField)])\<rparr>))
                   | _ \<Rightarrow> Inl TypeError)))"

text \<open>
  \<^verbatim>\<open>_prepareField(modelField, key)\<close>, the iteration function of
  \<^verbatim>\<open>getFields\<close>, closed over the action \<^verbatim>\<open>type\<close> and the configured
  \<^verbatim>\<open>identifierField\<close>.
\<close>

definition prepareField ::
  "string \<Rightarrow> jsval \<Rightarrow> jsval \<Rightarrow> string \<Rightarrow> resolver_state \<Rightarrow> error + resolver_state" where
  "prepareField type identifierField modelField0 key st =
     (let modelField = (if isString modelField0 then Obj [(''type'', modelField0)]
                        else modelField0)
      in if type = ''add'' \<and> Str key = identifierField then Inr st
         else case globalLayer key ([(''key'', Str key), (''title'', Str key)], False, st) of
                Inl e \<Rightarrow> Inl e
              | Inr w1 \<Rightarrow>
                  (case actionLayer key w1 of
                     Inl e \<Rightarrow> Inl e
                   | Inr w2 \<Rightarrow> emitField modelField key w2))"

text \<open>\<^verbatim>\<open>_.forEach(object, f)\<close>: every property in order; a throw of \<open>f\<close> ends the loop.\<close>

fun forEach ::
  "(jsval \<Rightarrow> string \<Rightarrow> resolver_state \<Rightarrow> error + resolver_state) \<Rightarrow> props \<Rightarrow>
   resolver_state \<Rightarrow> error + resolver_state" where
  "forEach f [] st = Inr st"
| "forEach f ((k, v) # ps) st =
     (case f v k st of Inl e \<Rightarrow> Inl e | Inr st' \<Rightarrow> forEach f ps st')"

text \<open>The predicate of the \<^verbatim>\<open>_.pick\<close> on lines 178 to 180.\<close>

definition pickAttribute :: "jsval \<Rightarrow> bool" where
  "pickAttribute val =
     ((isPlainObject val \<or> isString val) \<and> \<not> truthy (readProp val ''collection'')
      \<and> \<not> truthy (readProp val ''model''))"

text \<open>
  Lines 176 to 249, the resolver proper: from the model's attributes, the two override
  layers, the action type and the identifier field name to the final state, that is the
  result object together with the override objects as the call leaves them.
\<close>

definition resolve ::
  "props \<Rightarrow> props \<Rightarrow> props \<Rightarrow> string \<Rightarrow> jsval \<Rightarrow> error + resolver_state" where
  "resolve attributes globalFields actionFlds type identifierField =
     forEach (prepareField type identifierField)
       (filter (\<lambda>(key, val). pickAttribute val) attributes)
       \<lparr>result = [], fieldsConfig = globalFields, actionFields = actionFlds\<rparr>"

text \<open>
  \<^verbatim>\<open>getFields(req, model, type)\<close> with the lookups of \<^verbatim>\<open>lib/adminUtil\<close> taken as
  arguments: \<open>configFields\<close> is \<^verbatim>\<open>config.fields\<close> (\<open>None\<close> when the instance
  configuration has none), \<open>attributes\<close> is \<^verbatim>\<open>model.attributes\<close> (\<open>None\<close>
  when no model is found or it has no attributes), \<open>actionFlds\<close> is
  \<^verbatim>\<open>actionConfig.fields\<close>, and \<open>type\<close> is the optional action type.
\<close>

definition getFields ::
  "props option \<Rightarrow> props option \<Rightarrow> string option \<Rightarrow> props \<Rightarrow> jsval \<Rightarrow> error + resolver_state" where
  "getFields configFields attributes type actionFlds identifierField =
     (case attributes of
        None \<Rightarrow> Inr \<lparr>result = [], fieldsConfig = (case configFields of None \<Rightarrow> [] | Some f \<Rightarrow> f),
                      actionFields = actionFlds\<rparr>
      | Some attrs \<Rightarrow>
          resolve attrs (case configFields of None \<Rightarrow> [] | Some f \<Rightarrow> f) actionFlds
            (case type of None \<Rightarrow> ''list'' | Some t \<Rightarrow> if t = [] then ''list'' else t)
            identifierField)"

section \<open>Closed forms\<close>

text \<open>
  The functions above follow the source statement by statement. The ones below say the
  same thing without the error plumbing; the lemmas of the next sections prove each of
  them equal to its source form, and the properties are then read off them.
\<close>

text \<open>Lines 114 to 119: the two defaulting assignments of the normalizer's object branch.\<close>

definition fillDefaults :: "props \<Rightarrow> string \<Rightarrow> props" where
  "fillDefaults ps k =
     (let ps1 = (if \<not> truthy (get ps ''key'') then put ps ''key'' (Str k) else ps)
      in if \<not> truthy (get ps1 ''title'') then put ps1 ''title'' (Str k) else ps1)"

text \<open>What the normalizer returns for a defined \<open>raw\<close> and the string key \<open>k\<close>.\<close>

definition normalized :: "jsval \<Rightarrow> string \<Rightarrow> jsval" where
  "normalized raw k =
     (case raw of
        Bool b \<Rightarrow> if b then Obj [(''key'', Str k), (''title'', Str k)] else Bool False
      | Str s \<Rightarrow> Obj [(''key'', Str k), (''title'', Str s)]
      | Obj ps \<Rightarrow> Obj (fillDefaults ps k)
      | _ \<Rightarrow> Bool False)"

text \<open>The argument \<open>raw\<close> as that call leaves it: only a plain object is written to.\<close>

definition touched :: "jsval \<Rightarrow> string \<Rightarrow> jsval" where
  "touched raw k = (case raw of Obj ps \<Rightarrow> Obj (fillDefaults ps k) | _ \<Rightarrow> raw)"

text \<open>
  The working \<^verbatim>\<open>fldConfig\<close> after one layer whose override is \<open>v\<close>: a truthy
  override is normalized and merged in, any other leaves it alone.
\<close>

definition layered :: "props \<Rightarrow> jsval \<Rightarrow> string \<Rightarrow> props" where
  "layered fldConfig v k = (if truthy v then merge fldConfig (normalized v k) else fldConfig)"

text \<open>
  The merged config: \<^verbatim>\<open>fldConfig\<close> after line 231, for the global override \<open>g\<close>
  and the action override \<open>a\<close> of the field \<open>k\<close>, before \<^verbatim>\<open>required\<close> and
  \<^verbatim>\<open>type\<close> are assigned.
\<close>

definition workingConfig :: "jsval \<Rightarrow> jsval \<Rightarrow> string \<Rightarrow> props" where
  "workingConfig g a k =
     fillDefaults (layered (layered [(''key'', Str k), (''title'', Str k)] g k) a k) k"

text \<open>The value of \<^verbatim>\<open>ignoreField\<close> on line 227.\<close>

definition hidden :: "jsval \<Rightarrow> jsval \<Rightarrow> bool" where
  "hidden g a = (if a = Bool False then True else if truthy a then False else g = Bool False)"

text \<open>Lines 195 to 199: the string shorthand of a model attribute becomes \<open>{type: s}\<close>.\<close>

definition coerced :: "jsval \<Rightarrow> jsval" where
  "coerced modelField = (if isString modelField then Obj [(''type'', modelField)] else modelField)"

text \<open>Lines 233 to 243: the entry stored for a merged config \<open>c0\<close>.\<close>

definition entry :: "jsval \<Rightarrow> props \<Rightarrow> jsval" where
  "entry modelField c0 =
     (let c1 = put c0 ''required''
                 (Bool (truthy (js_or (get c0 ''required'') (readProp modelField ''required''))));
          c2 = put c1 ''type'' (js_or (get c1 ''type'') (readProp modelField ''type''))
      in Obj [(''config'', Obj c2), (''model'', modelField)])"

text \<open>An override map after the layer of field \<open>k\<close> has run on it.\<close>

definition written :: "props \<Rightarrow> string \<Rightarrow> props" where
  "written fs k =
     (if isPlainObject (lookup fs k) then put fs k (touched (lookup fs k) k) else fs)"

text \<open>The state after one call of \<^verbatim>\<open>_prepareField\<close>, which never throws.\<close>

definition prepared :: "string \<Rightarrow> jsval \<Rightarrow> jsval \<Rightarrow> string \<Rightarrow> resolver_state \<Rightarrow> resolver_state" where
  "prepared type identifierField modelField key st =
     (if type = ''add'' \<and> Str key = identifierField then st
      else let g = lookup (fieldsConfig st) key; a = lookup (actionFields st) key
           in \<lparr>result = (if hidden g a then result st
                          else put (result st) key (entry (coerced modelField) (workingConfig g a key))),
               fieldsConfig = written (fieldsConfig st) key,
               actionFields = written (actionFields st) key\<rparr>)"

text \<open>The state after the whole loop.\<close>

fun run :: "string \<Rightarrow> jsval \<Rightarrow> props \<Rightarrow> resolver_state \<Rightarrow> resolver_state" where
  "run ty idf [] st = st"
| "run ty idf ((k, v) # ps) st = run ty idf ps (prepared ty idf v k st)"

text \<open>The test of line 200, and the keys of \<open>ps\<close> that get past it.\<close>

definition skipped :: "string \<Rightarrow> jsval \<Rightarrow> string \<Rightarrow> bool" where
  "skipped ty idf k = (ty = ''add'' \<and> Str k = idf)"

definition visited :: "string \<Rightarrow> jsval \<Rightarrow> props \<Rightarrow> string \<Rightarrow> bool" where
  "visited ty idf ps k = (k \<in> fst ` set ps \<and> \<not> skipped ty idf k)"

text \<open>The state's override maps are the caller's, up to entries already normalized.\<close>

definition upto :: "props \<Rightarrow> props \<Rightarrow> bool" where
  "upto G fs = (\<forall>k. lookup fs k = lookup G k \<or> lookup fs k = touched (lookup G k) k)"

text \<open>
  A value that the guards on lines 207 and 217 pass over: falsy and not the literal
  \<open>false\<close> (\<open>undefined\<close>, \<open>null\<close>, \<open>0\<close>, \<open>NaN\<close>, \<open>""\<close>).
\<close>

definition passedOver :: "jsval \<Rightarrow> bool" where
  "passedOver v = (\<not> truthy v \<and> v \<noteq> Bool False)"

text \<open>Two override maps whose reads differ only in values the guards pass over.\<close>

definition alike :: "props \<Rightarrow> props \<Rightarrow> bool" where
  "alike fs fs' =
     (\<forall>k. lookup fs k = lookup fs' k \<or> (passedOver (lookup fs k) \<and> passedOver (lookup fs' k)))"

section \<open>Properties of objects as association lists\<close>

lemma get_put: "get (put ps k v) k' = (if k' = k then v else get ps k')"
  by (simp add: get_def put_def update_conv')

lemma dom_put: "fst ` set (put ps k v) = insert k (fst ` set ps)"
  by (simp add: put_def dom_update)

lemma get_present: "get ps k \<noteq> Undefined \<Longrightarrow> k \<in> fst ` set ps"
  by (auto simp add: get_def split: option.splits dest: map_of_SomeD intro: rev_image_eqI)

lemma truthy_present: "truthy (get ps k) \<Longrightarrow> k \<in> fst ` set ps"
  by (rule get_present) auto

lemma present_iff: "(k \<in> fst ` set ps) = (map_of ps k \<noteq> None)"
  by (simp add: map_of_eq_None_iff)

lemma lookup_put: "lookup (put ps k v) k' = (if k' = k then v else lookup ps k')"
  by (simp add: lookup_def put_def update_conv')

lemma lookup_get: "lookup ps k = get ps k \<or> (get ps k = Undefined \<and> lookup ps k = Other)"
  by (simp add: lookup_def get_def split: option.splits)

lemma lookup_own: "k \<in> fst ` set ps \<Longrightarrow> lookup ps k = get ps k"
  by (auto simp add: present_iff lookup_def get_def)


lemma lookup_False: "(lookup ps k = Bool False) = (get ps k = Bool False)"
  using lookup_get [of ps k] by auto

lemma lookup_plain: "isPlainObject (lookup ps k) = isPlainObject (get ps k)"
  using lookup_get [of ps k] by (auto simp add: isPlainObject_def)

lemma plain_present: "isPlainObject (get ps k) \<Longrightarrow> k \<in> fst ` set ps"
  by (rule get_present) (auto simp add: isPlainObject_def)

section \<open>One iteration and the loop in closed form\<close>

lemma normalize_closed:
  "raw \<noteq> Undefined \<Longrightarrow> normalizeFieldConfig raw (Str k) = Inr (normalized raw k, touched raw k)"
  by (cases raw)
    (simp_all add: normalizeFieldConfig_def normalized_def touched_def fillDefaults_def
      isUndefined_def isBoolean_def isString_def Let_def)

lemma normalize_truthy:
  "truthy raw \<Longrightarrow> normalizeFieldConfig raw (Str k) = Inr (normalized raw k, touched raw k)"
  by (rule normalize_closed) auto

lemma touched_plain [simp]: "isPlainObject (touched v k) = isPlainObject v"
  by (cases v) (simp_all add: touched_def isPlainObject_def)

lemma touched_nonplain: "\<not> isPlainObject v \<Longrightarrow> touched v k = v"
  by (cases v) (simp_all add: touched_def isPlainObject_def)

lemma plain_truthy: "isPlainObject v \<Longrightarrow> truthy v"
  by (cases v) (simp_all add: isPlainObject_def)

lemma plain_not_False [simp]: "\<not> isPlainObject (Bool b)"
  by (simp add: isPlainObject_def)

lemma globalLayer_closed:
  "globalLayer k (fld, ign, st) =
     Inr (layered fld (lookup (fieldsConfig st) k) k,
          (if lookup (fieldsConfig st) k = Bool False then True else ign),
          st\<lparr>fieldsConfig := written (fieldsConfig st) k\<rparr>)"
  by (auto simp add: globalLayer_def Let_def layered_def written_def normalize_truthy
      touched_plain touched_nonplain dest: plain_truthy)

lemma actionLayer_closed:
  "actionLayer k (fld, ign, st) =
     Inr (layered fld (lookup (actionFields st) k) k,
          (if lookup (actionFields st) k = Bool False then True
           else if truthy (lookup (actionFields st) k) then False else ign),
          st\<lparr>actionFields := written (actionFields st) k\<rparr>)"
  by (auto simp add: actionLayer_def Let_def layered_def written_def normalize_truthy
      touched_plain touched_nonplain dest: plain_truthy)

lemma emitField_closed:
  "emitField mf k (fld, ign, st) =
     Inr (if ign then st else st\<lparr>result := put (result st) k (entry mf (fillDefaults fld k))\<rparr>)"
  by (simp add: emitField_def normalize_closed normalized_def entry_def Let_def)

lemma prepareField_closed:
  "prepareField ty idf mf k st = Inr (prepared ty idf mf k st)"
  by (simp add: prepareField_def prepared_def globalLayer_closed actionLayer_closed
      emitField_closed Let_def hidden_def workingConfig_def coerced_def)

lemma map_of_put: "map_of (put ps k v) = (map_of ps)(k \<mapsto> v)"
  by (simp add: put_def update_conv')

lemma put_triv: "map_of ps k = Some v \<Longrightarrow> put ps k v = ps"
  by (simp add: put_def update_triv)

lemma keys_put_present: "k \<in> fst ` set ps \<Longrightarrow> map fst (put ps k v) = map fst ps"
  by (simp add: put_def update_keys)

lemma fillDefaults_key:
  "get (fillDefaults ps k) ''key'' = (if truthy (get ps ''key'') then get ps ''key'' else Str k)"
  by (simp add: fillDefaults_def Let_def get_put)

lemma fillDefaults_title:
  "get (fillDefaults ps k) ''title'' = (if truthy (get ps ''title'') then get ps ''title'' else Str k)"
  by (simp add: fillDefaults_def Let_def get_put)

lemma fillDefaults_other:
  "p \<noteq> ''key'' \<Longrightarrow> p \<noteq> ''title'' \<Longrightarrow> get (fillDefaults ps k) p = get ps p"
  by (simp add: fillDefaults_def Let_def get_put)

lemma fillDefaults_idem: "fillDefaults (fillDefaults ps k) k = fillDefaults ps k"
proof -
  let ?q = "fillDefaults ps k"
  have k: "\<not> truthy (get ?q ''key'') \<Longrightarrow> put ?q ''key'' (Str k) = ?q"
    by (rule put_triv) (auto simp add: fillDefaults_def Let_def map_of_put get_put)
  have t: "\<not> truthy (get ?q ''title'') \<Longrightarrow> put ?q ''title'' (Str k) = ?q"
    by (rule put_triv) (auto simp add: fillDefaults_def Let_def map_of_put get_put)
  show ?thesis
    unfolding fillDefaults_def [of ?q] Let_def using k t by auto
qed

lemma truthy_touched [simp]: "truthy (touched v k) = truthy v"
  by (cases v) (simp_all add: touched_def)

lemma touched_False [simp]: "(touched v k = Bool False) = (v = Bool False)"
  by (cases v) (simp_all add: touched_def)

lemma touched_idem [simp]: "touched (touched v k) k = touched v k"
  by (cases v) (simp_all add: touched_def fillDefaults_idem)

lemma normalized_touched [simp]: "normalized (touched v k) k = normalized v k"
  by (cases v) (simp_all add: touched_def normalized_def fillDefaults_idem)

lemma touched_falsy: "\<not> truthy v \<Longrightarrow> touched v k = v"
  by (cases v) (simp_all add: touched_def)

lemma lookup_written:
  "lookup (written fs k) k' = (if k' = k then touched (lookup fs k) k else lookup fs k')"
  by (simp add: written_def lookup_put touched_nonplain)

lemma get_written:
  "get (written fs k) k' = (if k' = k then touched (get fs k) k else get fs k')"
proof (cases "isPlainObject (get fs k)")
  case True
  then have "lookup fs k = get fs k"
    by (simp add: lookup_own plain_present)
  with True show ?thesis
    by (simp add: written_def get_put)
next
  case False
  then show ?thesis
    by (simp add: written_def touched_nonplain lookup_plain)
qed

lemma keys_written: "map fst (written fs k) = map fst fs"
  by (simp add: written_def keys_put_present plain_present lookup_plain)

lemma hidden_touched [simp]:
  "hidden (touched g k) a = hidden g a"
  "hidden g (touched a k) = hidden g a"
  by (simp_all add: hidden_def)

lemma layered_touched [simp]: "layered fld (touched v k) k = layered fld v k"
  by (simp add: layered_def)

lemma workingConfig_touched [simp]:
  "workingConfig (touched g k) a k = workingConfig g a k"
  "workingConfig g (touched a k) k = workingConfig g a k"
  by (simp_all add: workingConfig_def)

lemma layered_lookup: "layered fld (lookup ps k) k' = layered fld (get ps k) k'"
  using lookup_get [of ps k]
  by (auto simp add: layered_def normalized_def merge_def)

lemma workingConfig_lookup:
  "workingConfig (lookup G k) (lookup A k) k' = workingConfig (get G k) (get A k) k'"
  by (simp add: workingConfig_def layered_lookup)

lemma hidden_lookup_absent:
  "get G k = Undefined \<Longrightarrow> get A k = Undefined \<Longrightarrow> \<not> hidden (lookup G k) (lookup A k)"
  using lookup_get [of G k] lookup_get [of A k] by (auto simp add: hidden_def)

lemma forEach_closed: "forEach (prepareField ty idf) ps st = Inr (run ty idf ps st)"
  by (induction ps arbitrary: st) (auto simp add: prepareField_closed)

lemma visited_Nil [simp]: "\<not> visited ty idf [] k"
  by (simp add: visited_def)

lemma visited_Cons [simp]:
  "visited ty idf ((k0, v) # ps) k = ((k = k0 \<and> \<not> skipped ty idf k0) \<or> visited ty idf ps k)"
  by (auto simp add: visited_def)

lemma prepared_skipped [simp]: "skipped ty idf k \<Longrightarrow> prepared ty idf v k st = st"
  by (simp add: prepared_def skipped_def)

lemma prepared_fields [simp]:
  "\<not> skipped ty idf k \<Longrightarrow> fieldsConfig (prepared ty idf v k st) = written (fieldsConfig st) k"
  "\<not> skipped ty idf k \<Longrightarrow> actionFields (prepared ty idf v k st) = written (actionFields st) k"
  by (auto simp add: prepared_def skipped_def Let_def)

lemma run_keys:
  "map fst (fieldsConfig (run ty idf ps st)) = map fst (fieldsConfig st)
   \<and> map fst (actionFields (run ty idf ps st)) = map fst (actionFields st)"
proof (induction ps arbitrary: st)
  case Nil
  then show ?case by simp
next
  case (Cons kv ps)
  obtain k0 v where kv: "kv = (k0, v)" by (cases kv)
  show ?case
    by (cases "skipped ty idf k0") (simp_all add: kv Cons.IH keys_written)
qed

lemma upto_refl: "upto G G"
  by (simp add: upto_def)

lemma upto_at: "upto G fs \<Longrightarrow> lookup fs k = lookup G k \<or> lookup fs k = touched (lookup G k) k"
  by (simp add: upto_def)

lemma upto_written: "upto G fs \<Longrightarrow> upto G (written fs k)"
  unfolding upto_def
proof
  fix k'
  assume a: "\<forall>k. lookup fs k = lookup G k \<or> lookup fs k = touched (lookup G k) k"
  from a have "lookup fs k' = lookup G k' \<or> lookup fs k' = touched (lookup G k') k'" by blast
  then show "lookup (written fs k) k' = lookup G k' \<or> lookup (written fs k) k' = touched (lookup G k') k'"
    by (auto simp add: lookup_written)
qed

lemma upto_hidden:
  "upto G fs \<Longrightarrow> upto A af \<Longrightarrow> hidden (lookup fs k) (lookup af k) = hidden (lookup G k) (lookup A k)"
  using upto_at [of G fs k] upto_at [of A af k] by auto

lemma upto_workingConfig:
  "upto G fs \<Longrightarrow> upto A af \<Longrightarrow>
   workingConfig (lookup fs k) (lookup af k) k = workingConfig (lookup G k) (lookup A k) k"
  using upto_at [of G fs k] upto_at [of A af k] by auto

lemma get_snoc:
  "get (ps @ [(k0, v)]) k =
     (if k \<in> fst ` set ps then get ps k else if k = k0 then v else Undefined)"
  by (cases "map_of ps k") (simp_all add: present_iff get_def map_add_def)

lemma run_result:
  "upto G (fieldsConfig st) \<Longrightarrow> upto A (actionFields st) \<Longrightarrow>
   get (result (run ty idf ps st)) k =
     (if visited ty idf ps k \<and> \<not> hidden (lookup G k) (lookup A k)
      then entry (coerced (get (rev ps) k)) (workingConfig (lookup G k) (lookup A k) k)
      else get (result st) k)"
proof (induction ps arbitrary: st)
  case Nil
  then show ?case by (simp add: visited_def)
next
  case (Cons kv ps)
  obtain k0 v where kv: "kv = (k0, v)" by (cases kv)
  let ?st1 = "prepared ty idf v k0 st"
  have u1: "upto G (fieldsConfig ?st1)" "upto A (actionFields ?st1)"
    using Cons.prems by (auto simp add: prepared_def Let_def upto_written)
  have r1: "get (result ?st1) k =
      (if k = k0 \<and> \<not> skipped ty idf k0 \<and> \<not> hidden (lookup G k) (lookup A k)
       then entry (coerced v) (workingConfig (lookup G k) (lookup A k) k) else get (result st) k)"
    using Cons.prems
    by (auto simp add: prepared_def Let_def skipped_def get_put upto_hidden upto_workingConfig)
  have l: "get (rev (kv # ps)) k =
      (if k \<in> fst ` set ps then get (rev ps) k else if k = k0 then v else Undefined)"
    using get_snoc [of "rev ps" k0 v k] by (simp add: kv)
  show ?case
    using Cons.IH [OF u1] r1 l by (auto simp add: kv visited_def)
qed

section \<open>The resolver in closed form\<close>


lemma resolve_closed:
  "resolve attrs G A ty idf =
     Inr (run ty idf (filter (\<lambda>(key, val). pickAttribute val) attrs)
            \<lparr>result = [], fieldsConfig = G, actionFields = A\<rparr>)"
  by (simp add: resolve_def forEach_closed)

lemma visited_filter:
  "visited ty idf (filter (\<lambda>(key, val). pickAttribute val) attrs) k =
     ((\<exists>mf. (k, mf) \<in> set attrs \<and> pickAttribute mf) \<and> \<not> skipped ty idf k)"
  by (force simp add: visited_def)

lemma get_rev_member:
  "k \<in> fst ` set ps \<Longrightarrow> (k, get (rev ps) k) \<in> set ps"
proof -
  assume "k \<in> fst ` set ps"
  then have "map_of (rev ps) k \<noteq> None"
    using present_iff [of k "rev ps"] by simp
  then obtain v where v: "map_of (rev ps) k = Some v"
    by blast
  then have "(k, v) \<in> set (rev ps)" by (rule map_of_SomeD)
  with v show ?thesis by (simp add: get_def)
qed

lemma get_rev_distinct:
  "distinct (map fst ps) \<Longrightarrow> (k, v) \<in> set ps \<Longrightarrow> get (rev ps) k = v"
proof -
  assume d: "distinct (map fst ps)" and m: "(k, v) \<in> set ps"
  have "distinct (map fst (rev ps))" using d by (simp add: rev_map [symmetric])
  moreover have "(k, v) \<in> set (rev ps)" using m by simp
  ultimately have "map_of (rev ps) k = Some v" by (rule map_of_is_SomeI)
  then show ?thesis by (simp add: get_def)
qed

lemma get_Nil: "get [] k = Undefined"
  by (simp add: get_def)

lemma get_Cons: "get ((k, v) # ps) k' = (if k' = k then v else get ps k')"
  by (simp add: get_def)

lemma entry_config: "readProp (entry mf c0) ''config'' =
   Obj (put (put c0 ''required''
               (Bool (truthy (get c0 ''required'') \<or> truthy (readProp mf ''required''))))
          ''type'' (if truthy (get c0 ''type'') then get c0 ''type'' else readProp mf ''type''))"
  by (simp add: entry_def Let_def readProp_def get_Cons get_put js_or_def)

lemma entry_config_prop:
  "p \<noteq> ''required'' \<Longrightarrow> p \<noteq> ''type'' \<Longrightarrow>
   readProp (readProp (entry mf c0) ''config'') p = get c0 p"
  by (simp add: entry_config) (simp add: readProp_def get_put)

lemma entry_config_required:
  "readProp (readProp (entry mf c0) ''config'') ''required'' =
     Bool (truthy (get c0 ''required'') \<or> truthy (readProp mf ''required''))"
  by (simp add: entry_config) (simp add: readProp_def get_put)

lemma entry_config_type:
  "readProp (readProp (entry mf c0) ''config'') ''type'' =
     (if truthy (get c0 ''type'') then get c0 ''type'' else readProp mf ''type'')"
  by (simp add: entry_config) (simp add: readProp_def get_put)

lemma entry_model: "readProp (entry mf c0) ''model'' = mf"
  by (simp add: entry_def Let_def readProp_def get_Cons)

lemma get_mergeProps:
  "distinct (map fst sp) \<Longrightarrow> get (mergeProps dp sp) p = mergeValue (get dp p) (get sp p)"
proof (induction sp arbitrary: dp)
  case Nil
  then show ?case by (simp add: get_def)
next
  case (Cons kv sp)
  obtain k s where kv: "kv = (k, s)" by (cases kv)
  from Cons.prems have d: "distinct (map fst sp)" and n: "k \<notin> fst ` set sp"
    by (simp_all add: kv)
  from n have u: "get sp k = Undefined"
    by (simp add: get_def present_iff)
  show ?case
    using Cons.IH [OF d] u by (auto simp add: kv get_put get_Cons)
qed

lemma distinct_put: "distinct (map fst ps) \<Longrightarrow> distinct (map fst (put ps k v))"
  by (simp add: put_def distinct_update)

lemma distinct_fillDefaults:
  "distinct (map fst ps) \<Longrightarrow> distinct (map fst (fillDefaults ps k))"
  by (simp add: fillDefaults_def Let_def distinct_put)


lemma run_result_shown:
  "upto G (fieldsConfig st) \<Longrightarrow> upto A (actionFields st) \<Longrightarrow>
   fst ` set (result (run ty idf ps st))
     \<subseteq> fst ` set (result st) \<union> {k. visited ty idf ps k \<and> \<not> hidden (lookup G k) (lookup A k)}"
proof (induction ps arbitrary: st)
  case Nil
  then show ?case by simp
next
  case (Cons kv ps)
  obtain k0 v where kv: "kv = (k0, v)" by (cases kv)
  let ?st1 = "prepared ty idf v k0 st"
  have u1: "upto G (fieldsConfig ?st1)" "upto A (actionFields ?st1)"
    using Cons.prems by (auto simp add: prepared_def Let_def upto_written)
  have "fst ` set (result ?st1)
          \<subseteq> fst ` set (result st)
            \<union> {k. k = k0 \<and> \<not> skipped ty idf k0 \<and> \<not> hidden (lookup G k) (lookup A k)}"
    using Cons.prems
    by (auto simp add: prepared_def Let_def skipped_def dom_put upto_hidden)
  with Cons.IH [OF u1] show ?case
    by (auto simp add: kv)
qed

lemma resolve_entry:
  assumes "resolve attrs G A ty idf = Inr st"
  shows "get (result st) k =
     (if (\<exists>mf. (k, mf) \<in> set attrs \<and> pickAttribute mf) \<and> \<not> skipped ty idf k
          \<and> \<not> hidden (lookup G k) (lookup A k)
      then entry (coerced (get (rev (filter (\<lambda>(key, val). pickAttribute val) attrs)) k))
             (workingConfig (get G k) (get A k) k)
      else Undefined)"
proof -
  let ?ps = "filter (\<lambda>(key, val). pickAttribute val) attrs"
  let ?st0 = "\<lparr>result = [], fieldsConfig = G, actionFields = A\<rparr>"
  have st: "st = run ty idf ?ps ?st0"
    using assms by (simp add: resolve_closed)
  have r: "get (result st) k =
     (if visited ty idf ?ps k \<and> \<not> hidden (lookup G k) (lookup A k)
      then entry (coerced (get (rev ?ps) k)) (workingConfig (lookup G k) (lookup A k) k)
      else get (result ?st0) k)"
    unfolding st by (rule run_result) (simp_all add: upto_refl)
  show ?thesis
    unfolding r visited_filter by (auto simp add: get_Nil workingConfig_lookup)
qed

lemma resolve_shown:
  assumes "resolve attrs G A ty idf = Inr st" and "k \<in> fst ` set (result st)"
  shows "(\<exists>mf. (k, mf) \<in> set attrs \<and> pickAttribute mf) \<and> \<not> skipped ty idf k
          \<and> \<not> hidden (lookup G k) (lookup A k)"
proof -
  let ?ps = "filter (\<lambda>(key, val). pickAttribute val) attrs"
  let ?st0 = "\<lparr>result = [], fieldsConfig = G, actionFields = A\<rparr>"
  have st: "st = run ty idf ?ps ?st0"
    using assms(1) by (simp add: resolve_closed)
  have "upto G (fieldsConfig ?st0)" "upto A (actionFields ?st0)"
    by (simp_all add: upto_refl)
  from run_result_shown [OF this, of ty idf ?ps] assms(2) show ?thesis
    by (auto simp add: st visited_filter)
qed

lemma resolve_model:
  assumes "(k, mf) \<in> set attrs" "pickAttribute mf"
  shows "\<exists>mf'. (k, mf') \<in> set attrs \<and> pickAttribute mf'
           \<and> get (rev (filter (\<lambda>(key, val). pickAttribute val) attrs)) k = mf'"
proof -
  let ?ps = "filter (\<lambda>(key, val). pickAttribute val) attrs"
  have "k \<in> fst ` set ?ps" using assms by force
  from get_rev_member [OF this] show ?thesis by auto
qed

lemma entry_present: "get ps k = entry mf c0 \<Longrightarrow> k \<in> fst ` set ps"
  by (rule get_present) (simp add: entry_def Let_def)

lemma layered_object:
  "distinct (map fst x) \<Longrightarrow>
   get (layered fld (Obj x) k) p = mergeValue (get fld p) (get (fillDefaults x k) p)"
  by (simp add: layered_def normalized_def merge_def get_mergeProps distinct_fillDefaults)


lemma resolve_emitted:
  assumes "resolve attrs G A ty idf = Inr st" and "k \<in> fst ` set (result st)"
  shows "\<exists>mf. (k, mf) \<in> set attrs \<and> pickAttribute mf
           \<and> get (result st) k = entry (coerced mf) (workingConfig (get G k) (get A k) k)"
proof -
  from resolve_shown [OF assms] obtain mf0 where
    m: "(k, mf0) \<in> set attrs" "pickAttribute mf0"
    and s: "\<not> skipped ty idf k" "\<not> hidden (lookup G k) (lookup A k)"
    by blast
  from resolve_model [OF m] obtain mf where
    mf: "(k, mf) \<in> set attrs" "pickAttribute mf"
      "get (rev (filter (\<lambda>(key, val). pickAttribute val) attrs)) k = mf"
    by blast
  have "get (result st) k = entry (coerced mf) (workingConfig (get G k) (get A k) k)"
    using resolve_entry [OF assms(1), of k] m s mf(3) by auto
  with mf show ?thesis by blast
qed

lemma resolve_entry_distinct:
  assumes "resolve attrs G A ty idf = Inr st" and "distinct (map fst attrs)"
    and "(k, mf) \<in> set attrs" and "pickAttribute mf" and "\<not> (ty = ''add'' \<and> Str k = idf)"
    and "\<not> hidden (lookup G k) (lookup A k)"
  shows "get (result st) k = entry (coerced mf) (workingConfig (get G k) (get A k) k)"
proof -
  let ?ps = "filter (\<lambda>(key, val). pickAttribute val) attrs"
  have "distinct (map fst ?ps)"
    using assms(2) by (rule distinct_map_filter)
  moreover have "(k, mf) \<in> set ?ps"
    using assms(3,4) by simp
  ultimately have "get (rev ?ps) k = mf"
    by (rule get_rev_distinct)
  then show ?thesis
    using resolve_entry [OF assms(1), of k] assms(3-6) by (auto simp add: skipped_def)
qed

lemma workingConfig_default:
  assumes "\<not> truthy g" "\<not> truthy a"
  shows "workingConfig g a k = [(''key'', Str k), (''title'', Str k)]"
proof -
  have "fillDefaults [(''key'', Str k), (''title'', Str k)] k = [(''key'', Str k), (''title'', Str k)]"
    by (simp add: fillDefaults_def Let_def get_Cons put_def)
  then show ?thesis
    using assms by (simp add: workingConfig_def layered_def)
qed

lemma fillDefaults_dom: "{''key'', ''title''} \<subseteq> fst ` set (fillDefaults ps k)"
  by (auto simp add: fillDefaults_def Let_def dom_put get_put dest: truthy_present)

lemma workingConfig_key:
  "truthy (get (workingConfig g a k) ''key'') \<or> get (workingConfig g a k) ''key'' = Str k"
  by (simp add: workingConfig_def fillDefaults_key)

lemma workingConfig_title:
  "truthy (get (workingConfig g a k) ''title'') \<or> get (workingConfig g a k) ''title'' = Str k"
  by (simp add: workingConfig_def fillDefaults_title)

lemma layered_plain:
  "\<not> isPlainObject v \<Longrightarrow>
   \<exists>t'. layered [(''key'', Str k), (''title'', Str t)] v k = [(''key'', Str k), (''title'', Str t')]"
  by (cases v)
    (simp_all add: layered_def normalized_def merge_def isPlainObject_def put_def get_Cons)

lemma workingConfig_plain:
  assumes "\<not> isPlainObject g" "\<not> isPlainObject a"
  shows "get (workingConfig g a k) ''key'' = Str k \<and> isString (get (workingConfig g a k) ''title'')"
proof -
  from layered_plain [OF assms(1)] obtain t1 where
    1: "layered [(''key'', Str k), (''title'', Str k)] g k = [(''key'', Str k), (''title'', Str t1)]"
    by blast
  from layered_plain [OF assms(2)] obtain t2 where
    2: "layered [(''key'', Str k), (''title'', Str t1)] a k = [(''key'', Str k), (''title'', Str t2)]"
    by blast
  show ?thesis
    by (simp add: workingConfig_def 1 2 fillDefaults_key fillDefaults_title get_Cons isString_def)
qed

lemma entry_invariant:
  "\<exists>cfg. entry mf (workingConfig g a k) = Obj [(''config'', Obj cfg), (''model'', mf)]
     \<and> {''key'', ''title'', ''required'', ''type''} \<subseteq> fst ` set cfg
     \<and> (truthy (get cfg ''key'') \<or> get cfg ''key'' = Str k)
     \<and> (truthy (get cfg ''title'') \<or> get cfg ''title'' = Str k)
     \<and> (\<exists>b. get cfg ''required'' = Bool b)
     \<and> (truthy (readProp mf ''type'') \<longrightarrow> truthy (get cfg ''type''))
     \<and> (\<not> isPlainObject g \<and> \<not> isPlainObject a \<longrightarrow>
           get cfg ''key'' = Str k \<and> isString (get cfg ''title''))"
proof -
  let ?wc = "workingConfig g a k"
  let ?cfg = "put (put ?wc ''required''
                 (Bool (truthy (js_or (get ?wc ''required'') (readProp mf ''required'')))))
               ''type'' (js_or (get ?wc ''type'') (readProp mf ''type''))"
  have e: "entry mf ?wc = Obj [(''config'', Obj ?cfg), (''model'', mf)]"
    by (simp add: entry_def Let_def get_put)
  have d: "{''key'', ''title'', ''required'', ''type''} \<subseteq> fst ` set ?cfg"
    using fillDefaults_dom [of "layered (layered [(''key'', Str k), (''title'', Str k)] g k) a k" k]
    by (simp add: dom_put workingConfig_def)
  have kt: "get ?cfg ''key'' = get ?wc ''key''" "get ?cfg ''title'' = get ?wc ''title''"
    by (simp_all add: get_put)
  have r: "\<exists>b. get ?cfg ''required'' = Bool b"
    by (simp add: get_put)
  have t: "truthy (readProp mf ''type'') \<longrightarrow> truthy (get ?cfg ''type'')"
    by (simp add: get_put js_or_def)
  show ?thesis
    using e d r t workingConfig_key [of g a k] workingConfig_title [of g a k]
      workingConfig_plain [of g a k]
    unfolding kt [symmetric] by blast
qed

lemma alike_at:
  "alike fs fs' \<Longrightarrow> lookup fs k = lookup fs' k \<or> (passedOver (lookup fs k) \<and> passedOver (lookup fs' k))"
  by (simp add: alike_def)

lemma hidden_passedOver:
  "passedOver g \<Longrightarrow> passedOver g' \<Longrightarrow> hidden g a = hidden g' a"
  "passedOver a \<Longrightarrow> passedOver a' \<Longrightarrow> hidden g a = hidden g a'"
  by (auto simp add: hidden_def passedOver_def)

lemma layered_passedOver: "passedOver v \<Longrightarrow> layered fld v k = fld"
  by (simp add: layered_def passedOver_def)

lemma workingConfig_passedOver:
  "passedOver g \<Longrightarrow> passedOver g' \<Longrightarrow> workingConfig g a k = workingConfig g' a k"
  "passedOver a \<Longrightarrow> passedOver a' \<Longrightarrow> workingConfig g a k = workingConfig g a' k"
  by (simp_all add: workingConfig_def layered_passedOver)

lemma alike_hidden:
  "alike fs fs' \<Longrightarrow> alike af af' \<Longrightarrow>
   hidden (lookup fs k) (lookup af k) = hidden (lookup fs' k) (lookup af' k)"
  using alike_at [of fs fs' k] alike_at [of af af' k]
    hidden_passedOver(1) [of "lookup fs k" "lookup fs' k"]
    hidden_passedOver(2) [of "lookup af k" "lookup af' k"]
  by metis

lemma alike_workingConfig:
  "alike fs fs' \<Longrightarrow> alike af af' \<Longrightarrow>
   workingConfig (lookup fs k) (lookup af k) k = workingConfig (lookup fs' k) (lookup af' k) k"
  using alike_at [of fs fs' k] alike_at [of af af' k]
    workingConfig_passedOver(1) [of "lookup fs k" "lookup fs' k"]
    workingConfig_passedOver(2) [of "lookup af k" "lookup af' k"]
  by metis

lemma alike_written: "alike fs fs' \<Longrightarrow> alike (written fs k) (written fs' k)"
proof -
  assume a: "alike fs fs'"
  have "lookup (written fs k) k' = lookup (written fs' k) k'
      \<or> (passedOver (lookup (written fs k) k') \<and> passedOver (lookup (written fs' k) k'))" for k'
    using alike_at [OF a, of k']
    by (auto simp add: lookup_written passedOver_def touched_falsy)
  then show ?thesis by (simp add: alike_def)
qed

lemma prepared_alike:
  assumes "alike (fieldsConfig s1) (fieldsConfig s2)" "alike (actionFields s1) (actionFields s2)"
    and "result s1 = result s2"
  shows "alike (fieldsConfig (prepared ty idf v k s1)) (fieldsConfig (prepared ty idf v k s2))
    \<and> alike (actionFields (prepared ty idf v k s1)) (actionFields (prepared ty idf v k s2))
    \<and> result (prepared ty idf v k s1) = result (prepared ty idf v k s2)"
  using assms alike_hidden [OF assms(1,2), of k] alike_workingConfig [OF assms(1,2), of k]
  by (simp add: prepared_def Let_def alike_written)

lemma run_alike:
  "alike (fieldsConfig s1) (fieldsConfig s2) \<Longrightarrow> alike (actionFields s1) (actionFields s2) \<Longrightarrow>
   result s1 = result s2 \<Longrightarrow> result (run ty idf ps s1) = result (run ty idf ps s2)"
proof (induction ps arbitrary: s1 s2)
  case Nil
  then show ?case by simp
next
  case (Cons kv ps)
  obtain k v where kv: "kv = (k, v)" by (cases kv)
  from prepared_alike [OF Cons.prems, of ty idf v k] show ?case
    by (simp add: kv Cons.IH)
qed

text \<open>
  \<^verbatim>\<open>getFields\<close> is the resolver on the model's attributes, with the action type
  defaulting to \<^verbatim>\<open>list\<close>; without a model or attributes it returns the empty object.
\<close>

lemma getFields_resolve:
  "getFields (Some cf) (Some attrs) (Some ty) A idf =
     resolve attrs cf A (if ty = [] then ''list'' else ty) idf"
  "getFields None (Some attrs) None A idf = resolve attrs [] A ''list'' idf"
  "result (projr (getFields configFields None actionType A idf)) = []"
  by (simp_all add: getFields_def)

lemma mergeValue_truthy: "truthy s \<Longrightarrow> truthy (mergeValue d s)"
  by (cases s) simp_all

lemma layered_object_default:
  assumes "distinct (map fst a)" and "p = ''key'' \<or> p = ''title''"
  shows "get (fillDefaults (layered fld (Obj a) k) k) p =
     (if truthy (get a p) then mergeValue (get fld p) (get a p) else Str k)"
proof -
  have f: "get (fillDefaults a k) p = (if truthy (get a p) then get a p else Str k)"
    using assms(2) by (auto simp add: fillDefaults_key fillDefaults_title)
  have l: "get (layered fld (Obj a) k) p = mergeValue (get fld p) (get (fillDefaults a k) p)"
    using assms(1) by (rule layered_object)
  have d: "get (fillDefaults (layered fld (Obj a) k) k) p =
      (if truthy (get (layered fld (Obj a) k) p) then get (layered fld (Obj a) k) p else Str k)"
    using assms(2) by (auto simp add: fillDefaults_key fillDefaults_title)
  show ?thesis
    unfolding d l f by (simp add: mergeValue_truthy)
qed

lemma layered_object_other:
  assumes "distinct (map fst a)" and "p \<noteq> ''key''" and "p \<noteq> ''title''"
  shows "get (fillDefaults (layered fld (Obj a) k) k) p = mergeValue (get fld p) (get a p)"
  using assms by (simp add: fillDefaults_other layered_object)

lemma layered_falsy: "\<not> truthy v \<Longrightarrow> layered fld v k = fld"
  by (simp add: layered_def)

lemma workingConfig_global_False:
  "workingConfig (Bool False) a k = workingConfig Undefined a k"
  by (simp add: workingConfig_def layered_falsy)

lemma workingConfig_action_string:
  "s \<noteq> [] \<Longrightarrow> get (workingConfig Undefined (Str s) k) ''title'' = Str s"
  by (simp add: workingConfig_def layered_def normalized_def merge_def fillDefaults_title
      get_put get_Cons)

lemma workingConfig_action_True:
  "get (workingConfig Undefined (Bool True) k) ''title'' = Str k"
  by (simp add: workingConfig_def layered_def normalized_def merge_def fillDefaults_title
      get_put get_Cons)

lemma resolve_hidden:
  assumes "resolve attrs G A ty idf = Inr st" and "hidden (lookup G k) (lookup A k)"
  shows "k \<notin> fst ` set (result st)"
  using resolve_shown [OF assms(1), of k] assms(2) by blast


lemma run_fieldsConfig_own:
  "get (fieldsConfig (run ty idf ps st)) k =
     (if visited ty idf ps k then touched (get (fieldsConfig st) k) k else get (fieldsConfig st) k)"
proof (induction ps arbitrary: st)
  case Nil
  then show ?case by simp
next
  case (Cons kv ps)
  obtain k0 v where kv: "kv = (k0, v)" by (cases kv)
  show ?case
    by (cases "skipped ty idf k0") (simp_all add: kv Cons.IH get_written)
qed

lemma run_actionFields_own:
  "get (actionFields (run ty idf ps st)) k =
     (if visited ty idf ps k then touched (get (actionFields st) k) k else get (actionFields st) k)"
proof (induction ps arbitrary: st)
  case Nil
  then show ?case by simp
next
  case (Cons kv ps)
  obtain k0 v where kv: "kv = (k0, v)" by (cases kv)
  show ?case
    by (cases "skipped ty idf k0") (simp_all add: kv Cons.IH get_written)
qed

lemma fillDefaults_keys: "fst ` set (fillDefaults ps k) = fst ` set ps \<union> {''key'', ''title''}"
  by (auto simp add: fillDefaults_def Let_def dom_put get_put dest: truthy_present)

lemma touched_object:
  "\<exists>ps'. touched (Obj ps) k = Obj ps'
     \<and> get ps' ''key'' = (if truthy (get ps ''key'') then get ps ''key'' else Str k)
     \<and> get ps' ''title'' = (if truthy (get ps ''title'') then get ps ''title'' else Str k)
     \<and> (\<forall>p. p \<noteq> ''key'' \<and> p \<noteq> ''title'' \<longrightarrow> get ps' p = get ps p)
     \<and> fst ` set ps' = fst ` set ps \<union> {''key'', ''title''}"
  by (simp add: touched_def fillDefaults_key fillDefaults_title fillDefaults_other
      fillDefaults_keys)

text \<open>
  Override maps whose reads differ only in values the guards pass over resolve to the
  same result, and an attribute for which both layers read such a value gets the default
  entry. The reads are those of \<open>lookup\<close>: for a field named like a member of
  \<^verbatim>\<open>Object.prototype\<close>, an absent key reads as a function and is not passed over.
\<close>

lemma passedOver_reads_skipped:
  assumes "alike G G'" and "alike A A'"
  shows "\<exists>st st'. resolve attrs G A ty idf = Inr st \<and> resolve attrs G' A' ty idf = Inr st'
     \<and> result st = result st'
     \<and> (\<forall>k mf. distinct (map fst attrs) \<and> (k, mf) \<in> set attrs \<and> pickAttribute mf
            \<and> \<not> (ty = ''add'' \<and> Str k = idf)
            \<and> passedOver (lookup G k) \<and> passedOver (lookup A k) \<longrightarrow>
          get (result st) k =
            Obj [(''config'',
                  Obj [(''key'', Str k), (''title'', Str k),
                       (''required'', Bool (truthy (readProp (coerced mf) ''required''))),
                       (''type'', readProp (coerced mf) ''type'')]),
                 (''model'', coerced mf)])"
proof -
  obtain st where st: "resolve attrs G A ty idf = Inr st"
    by (simp add: resolve_closed)
  obtain st' where st': "resolve attrs G' A' ty idf = Inr st'"
    by (simp add: resolve_closed)
  have "result st = result st'"
    using st st' assms by (auto simp add: resolve_closed intro: run_alike)
  moreover have "get (result st) k =
            Obj [(''config'',
                  Obj [(''key'', Str k), (''title'', Str k),
                       (''required'', Bool (truthy (readProp (coerced mf) ''required''))),
                       (''type'', readProp (coerced mf) ''type'')]),
                 (''model'', coerced mf)]"
    if h: "distinct (map fst attrs) \<and> (k, mf) \<in> set attrs \<and> pickAttribute mf
            \<and> \<not> (ty = ''add'' \<and> Str k = idf)
            \<and> passedOver (lookup G k) \<and> passedOver (lookup A k)" for k mf
  proof -
    have nh: "\<not> hidden (lookup G k) (lookup A k)"
      using h by (simp add: hidden_def passedOver_def)
    have e: "get (result st) k = entry (coerced mf) (workingConfig (get G k) (get A k) k)"
      using h nh by (intro resolve_entry_distinct [OF st]) simp_all
    have w: "workingConfig (get G k) (get A k) k = [(''key'', Str k), (''title'', Str k)]"
      using h workingConfig_default [of "lookup G k" "lookup A k" k]
      by (simp add: passedOver_def workingConfig_lookup)
    show ?thesis
      by (simp add: e w entry_def Let_def get_Cons get_Nil js_or_def put_def)
  qed
  ultimately show ?thesis using st st' by blast
qed

section \<open>The normalizer\<close>

text \<open>
  Claim C6. \<^verbatim>\<open>_normalizeFieldConfig(raw, key)\<close> throws its argument error exactly
  when \<open>raw\<close> or \<open>key\<close> is \<open>undefined\<close>, and it throws nothing else: with both
  defined the call returns. The throw is the result \<open>Inl\<close> of the call itself, so it
  reaches the caller.
\<close>

theorem normalize_error_iff:
  "(normalizeFieldConfig raw key = Inl InvalidArgument) = (raw = Undefined \<or> key = Undefined)
   \<and> normalizeFieldConfig raw key \<noteq> Inl TypeError"
  by (cases raw)
    (simp_all add: normalizeFieldConfig_def isUndefined_def isBoolean_def isString_def Let_def)

theorem normalize_error_iff_witness:
  "normalizeFieldConfig Undefined (Str ''bio'') = Inl InvalidArgument
   \<and> normalizeFieldConfig (Bool True) Undefined = Inl InvalidArgument
   \<and> normalizeFieldConfig Null (Str ''bio'') \<noteq> Inl InvalidArgument"
  using normalize_error_iff [of Undefined "Str ''bio''"]
    normalize_error_iff [of "Bool True" Undefined]
    normalize_error_iff [of Null "Str ''bio''"]
  by simp

text \<open>
  Claim C3. For a string key \<open>k\<close>: \<open>true\<close> normalizes to \<open>{key: k, title: k}\<close>,
  \<open>false\<close> to the sentinel \<open>false\<close>, a string \<open>s\<close> to
  \<open>{key: k, title: s}\<close>, and every supplied value that is neither a boolean nor a
  string nor a plain object to \<open>false\<close>. None of these calls changes its argument
  (the second component). A raw value is a supplied one: \<open>undefined\<close> is the missing
  argument of claim C6.
\<close>

theorem normalize_notations:
  "normalizeFieldConfig (Bool True) (Str k)
     = Inr (Obj [(''key'', Str k), (''title'', Str k)], Bool True)
   \<and> normalizeFieldConfig (Bool False) (Str k) = Inr (Bool False, Bool False)
   \<and> normalizeFieldConfig (Str s) (Str k)
       = Inr (Obj [(''key'', Str k), (''title'', Str s)], Str s)
   \<and> (raw \<noteq> Undefined \<and> \<not> isBoolean raw \<and> \<not> isString raw \<and> \<not> isPlainObject raw
        \<longrightarrow> normalizeFieldConfig raw (Str k) = Inr (Bool False, raw))"
  by (cases raw)
    (simp_all add: normalizeFieldConfig_def isUndefined_def isBoolean_def isString_def
      isPlainObject_def)

theorem normalize_notations_witness:
  "Arr [Num 1] \<noteq> Undefined \<and> \<not> isBoolean (Arr [Num 1]) \<and> \<not> isString (Arr [Num 1])
   \<and> \<not> isPlainObject (Arr [Num 1])
   \<and> normalizeFieldConfig (Arr [Num 1]) (Str ''bio'') = Inr (Bool False, Arr [Num 1])
   \<and> normalizeFieldConfig (Str ''User bio'') (Str ''bio'')
       = Inr (Obj [(''key'', Str ''bio''), (''title'', Str ''User bio'')], Str ''User bio'')"
  using normalize_notations [of "''bio''" "''User bio''" "Arr [Num 1]"]
  by (simp add: isBoolean_def isString_def isPlainObject_def)

text \<open>
  Claim C4, as the code has it. For a plain object \<open>o\<close> and a string key \<open>k\<close> the
  normalizer returns \<open>o\<close> itself, updated in place: \<open>key\<close> is set to \<open>k\<close> when
  it was absent or falsy, \<open>title\<close> is set to \<open>k\<close> when it was absent or falsy, a
  truthy \<open>key\<close> or \<open>title\<close> and every other property keep their values, and no
  property is removed.
\<close>

theorem normalize_object:
  "\<exists>ps'. normalizeFieldConfig (Obj ps) (Str k) = Inr (Obj ps', Obj ps')
     \<and> get ps' ''key'' = (if truthy (get ps ''key'') then get ps ''key'' else Str k)
     \<and> get ps' ''title'' = (if truthy (get ps ''title'') then get ps ''title'' else Str k)
     \<and> (\<forall>p. p \<noteq> ''key'' \<and> p \<noteq> ''title'' \<longrightarrow> get ps' p = get ps p)
     \<and> fst ` set ps' = fst ` set ps \<union> {''key'', ''title''}"
  by (auto simp add: normalizeFieldConfig_def isUndefined_def isBoolean_def isString_def
      Let_def get_put dom_put dest: truthy_present)

theorem normalize_object_witness:
  "''editor'' \<noteq> ''key'' \<and> ''editor'' \<noteq> ''title''
   \<and> normalizeFieldConfig (Obj [(''editor'', Bool True)]) (Str ''bio'')
     = Inr (Obj [(''editor'', Bool True), (''key'', Str ''bio''), (''title'', Str ''bio'')],
            Obj [(''editor'', Bool True), (''key'', Str ''bio''), (''title'', Str ''bio'')])"
  using normalize_object [of "[(''editor'', Bool True)]" "''bio''"]
  by (simp add: normalizeFieldConfig_def isUndefined_def isBoolean_def isString_def Let_def
      get_def put_def)

text \<open>
  Claim C4 as stated fails: the override \<open>{title: ""}\<close> has a \<open>title\<close>, and the
  normalizer replaces it by the key.
\<close>

theorem normalize_object_counterexample:
  "normalizeFieldConfig (Obj [(''title'', Str '''')]) (Str ''x'')
     = Inr (Obj [(''title'', Str ''x''), (''key'', Str ''x'')],
            Obj [(''title'', Str ''x''), (''key'', Str ''x'')])
   \<and> get [(''title'', Str ''x''), (''key'', Str ''x'')] ''title''
       \<noteq> get [(''title'', Str '''')] ''title''"
  by (simp add: normalizeFieldConfig_def isUndefined_def isBoolean_def isString_def Let_def
      get_def put_def)

section \<open>The resolver\<close>

text \<open>
  Claim C1, as the code has it. Let \<open>k\<close> be an attribute that the resolver visits (it
  passes the pick and is not the identifier under \<^verbatim>\<open>add\<close>) and whose global
  override is literally \<open>false\<close>. The call returns. If the action layer defines a
  falsy override for \<open>k\<close> (\<open>false\<close>, \<open>""\<close>, \<open>0\<close>, \<open>null\<close>, \<open>NaN\<close>,
  \<open>undefined\<close>), the result has no entry for \<open>k\<close>. If the action override is
  truthy, the result has an entry for \<open>k\<close> with the action override applied: the
  entry is the one that override produces with no global override at all; a string
  override is the title, \<open>true\<close> leaves the title equal to the key, and for an object
  override (with distinct keys) the title is the object's own when truthy and the key
  otherwise, and every further property, apart from \<open>key\<close>, \<open>required\<close> and
  \<open>type\<close>, is the object's.
\<close>

theorem action_override_unhides:
  assumes "(k, mf) \<in> set attrs" and "pickAttribute mf"
    and "\<not> (ty = ''add'' \<and> Str k = idf)"
    and "get G k = Bool False"
  shows "\<exists>st. resolve attrs G A ty idf = Inr st
     \<and> (k \<in> fst ` set A \<and> \<not> truthy (get A k) \<longrightarrow> k \<notin> fst ` set (result st))
     \<and> (truthy (get A k) \<longrightarrow>
           k \<in> fst ` set (result st)
           \<and> (\<exists>mf'. (k, mf') \<in> set attrs \<and> pickAttribute mf'
                 \<and> get (result st) k
                     = entry (coerced mf') (workingConfig Undefined (get A k) k))
           \<and> (\<forall>s. get A k = Str s \<longrightarrow>
                 readProp (readProp (get (result st) k) ''config'') ''title'' = Str s)
           \<and> (get A k = Bool True \<longrightarrow>
                 readProp (readProp (get (result st) k) ''config'') ''title'' = Str k)
           \<and> (\<forall>a. get A k = Obj a \<and> distinct (map fst a) \<longrightarrow>
                 readProp (readProp (get (result st) k) ''config'') ''title''
                   = (if truthy (get a ''title'') then mergeValue (Str k) (get a ''title'')
                      else Str k)
                 \<and> (\<forall>p. p \<noteq> ''key'' \<and> p \<noteq> ''title'' \<and> p \<noteq> ''required'' \<and> p \<noteq> ''type'' \<longrightarrow>
                       readProp (readProp (get (result st) k) ''config'') p
                         = mergeValue Undefined (get a p))))"
proof -
  obtain st where st: "resolve attrs G A ty idf = Inr st"
    by (simp add: resolve_closed)
  have g: "lookup G k = Bool False"
    using assms(4) by (simp add: lookup_False)
  have hid: "k \<in> fst ` set A \<and> \<not> truthy (get A k) \<longrightarrow> k \<notin> fst ` set (result st)"
  proof
    assume h: "k \<in> fst ` set A \<and> \<not> truthy (get A k)"
    then have "lookup A k = get A k" by (simp add: lookup_own)
    with h have "hidden (lookup G k) (lookup A k)"
      by (simp add: hidden_def g)
    with st show "k \<notin> fst ` set (result st)" by (rule resolve_hidden)
  qed
  have shown: "truthy (get A k) \<longrightarrow>
           k \<in> fst ` set (result st)
           \<and> (\<exists>mf'. (k, mf') \<in> set attrs \<and> pickAttribute mf'
                 \<and> get (result st) k
                     = entry (coerced mf') (workingConfig Undefined (get A k) k))
           \<and> (\<forall>s. get A k = Str s \<longrightarrow>
                 readProp (readProp (get (result st) k) ''config'') ''title'' = Str s)
           \<and> (get A k = Bool True \<longrightarrow>
                 readProp (readProp (get (result st) k) ''config'') ''title'' = Str k)
           \<and> (\<forall>a. get A k = Obj a \<and> distinct (map fst a) \<longrightarrow>
                 readProp (readProp (get (result st) k) ''config'') ''title''
                   = (if truthy (get a ''title'') then mergeValue (Str k) (get a ''title'')
                      else Str k)
                 \<and> (\<forall>p. p \<noteq> ''key'' \<and> p \<noteq> ''title'' \<and> p \<noteq> ''required'' \<and> p \<noteq> ''type'' \<longrightarrow>
                       readProp (readProp (get (result st) k) ''config'') p
                         = mergeValue Undefined (get a p)))"
  proof
    assume t: "truthy (get A k)"
    from t have "k \<in> fst ` set A" by (rule truthy_present)
    then have a: "lookup A k = get A k" by (simp add: lookup_own)
    have nh: "\<not> hidden (lookup G k) (lookup A k)"
      using t by (auto simp add: hidden_def a)
    from resolve_model [OF assms(1,2)] obtain mf' where
      mf': "(k, mf') \<in> set attrs" "pickAttribute mf'"
        "get (rev (filter (\<lambda>(key, val). pickAttribute val) attrs)) k = mf'"
      by blast
    have e: "get (result st) k = entry (coerced mf') (workingConfig Undefined (get A k) k)"
      using resolve_entry [OF st, of k] assms(1-4) nh mf'(3)
      by (auto simp add: skipped_def workingConfig_global_False)
    have 1: "k \<in> fst ` set (result st)"
      using e by (rule entry_present)
    have 2: "\<forall>s. get A k = Str s \<longrightarrow>
                 readProp (readProp (get (result st) k) ''config'') ''title'' = Str s"
      using t by (auto simp add: e entry_config_prop workingConfig_action_string)
    have 3: "get A k = Bool True \<longrightarrow>
                 readProp (readProp (get (result st) k) ''config'') ''title'' = Str k"
      by (simp add: e entry_config_prop workingConfig_action_True)
    have 4: "\<forall>a. get A k = Obj a \<and> distinct (map fst a) \<longrightarrow>
                 readProp (readProp (get (result st) k) ''config'') ''title''
                   = (if truthy (get a ''title'') then mergeValue (Str k) (get a ''title'')
                      else Str k)
                 \<and> (\<forall>p. p \<noteq> ''key'' \<and> p \<noteq> ''title'' \<and> p \<noteq> ''required'' \<and> p \<noteq> ''type'' \<longrightarrow>
                       readProp (readProp (get (result st) k) ''config'') p
                         = mergeValue Undefined (get a p))"
      by (simp add: e entry_config_prop workingConfig_def layered_falsy
          layered_object_default layered_object_other get_Cons get_Nil)
    show "k \<in> fst ` set (result st)
           \<and> (\<exists>mf'. (k, mf') \<in> set attrs \<and> pickAttribute mf'
                 \<and> get (result st) k
                     = entry (coerced mf') (workingConfig Undefined (get A k) k))
           \<and> (\<forall>s. get A k = Str s \<longrightarrow>
                 readProp (readProp (get (result st) k) ''config'') ''title'' = Str s)
           \<and> (get A k = Bool True \<longrightarrow>
                 readProp (readProp (get (result st) k) ''config'') ''title'' = Str k)
           \<and> (\<forall>a. get A k = Obj a \<and> distinct (map fst a) \<longrightarrow>
                 readProp (readProp (get (result st) k) ''config'') ''title''
                   = (if truthy (get a ''title'') then mergeValue (Str k) (get a ''title'')
                      else Str k)
                 \<and> (\<forall>p. p \<noteq> ''key'' \<and> p \<noteq> ''title'' \<and> p \<noteq> ''required'' \<and> p \<noteq> ''type'' \<longrightarrow>
                       readProp (readProp (get (result st) k) ''config'') p
                         = mergeValue Undefined (get a p)))"
      by (intro conjI exI [of _ mf'] 1 2 3 4 mf'(1,2) e)
  qed
  show ?thesis
    by (rule exI [of _ st]) (intro conjI st hid shown)
qed

theorem action_override_unhides_witness:
  "(''bio'', Obj [(''type'', Str ''text'')]) \<in> set [(''bio'', Obj [(''type'', Str ''text'')])]
   \<and> pickAttribute (Obj [(''type'', Str ''text'')])
   \<and> \<not> (''list'' = ''add'' \<and> Str ''bio'' = Str ''id'')
   \<and> get [(''bio'', Bool False)] ''bio'' = Bool False
   \<and> truthy (get [(''bio'', Str ''Custom Title'')] ''bio'')
   \<and> (\<exists>st. resolve [(''bio'', Obj [(''type'', Str ''text'')])] [(''bio'', Bool False)]
               [(''bio'', Str ''Custom Title'')] ''list'' (Str ''id'') = Inr st
            \<and> ''bio'' \<in> fst ` set (result st)
            \<and> readProp (readProp (get (result st) ''bio'') ''config'') ''title''
                = Str ''Custom Title'')
   \<and> ''bio'' \<in> fst ` set [(''bio'', Num 0)] \<and> \<not> truthy (get [(''bio'', Num 0)] ''bio'')
   \<and> (\<exists>st. resolve [(''bio'', Obj [(''type'', Str ''text'')])] [(''bio'', Bool False)]
               [(''bio'', Num 0)] ''list'' (Str ''id'') = Inr st
            \<and> ''bio'' \<notin> fst ` set (result st))
   \<and> truthy (get [(''bio'', Obj [(''editor'', Bool True)])] ''bio'')
   \<and> distinct (map fst [(''editor'', Bool True)])
   \<and> (\<exists>st. resolve [(''bio'', Obj [(''type'', Str ''text'')])] [(''bio'', Bool False)]
               [(''bio'', Obj [(''editor'', Bool True)])] ''list'' (Str ''id'') = Inr st
            \<and> readProp (readProp (get (result st) ''bio'') ''config'') ''title'' = Str ''bio''
            \<and> readProp (readProp (get (result st) ''bio'') ''config'') ''editor'' = Bool True)"
proof -
  have h: "(''bio'', Obj [(''type'', Str ''text'')]) \<in> set [(''bio'', Obj [(''type'', Str ''text'')])]"
    "pickAttribute (Obj [(''type'', Str ''text'')])"
    "\<not> (''list'' = ''add'' \<and> Str ''bio'' = Str ''id'')"
    "get [(''bio'', Bool False)] ''bio'' = Bool False"
    by (simp_all add: pickAttribute_def isPlainObject_def readProp_def get_Cons get_Nil)
  have s: "truthy (get [(''bio'', Str ''Custom Title'')] ''bio'')"
    "get [(''bio'', Str ''Custom Title'')] ''bio'' = Str ''Custom Title''"
    by (simp_all add: get_Cons)
  have z: "''bio'' \<in> fst ` set [(''bio'', Num 0)] \<and> \<not> truthy (get [(''bio'', Num 0)] ''bio'')"
    by (simp add: get_Cons)
  have o: "truthy (get [(''bio'', Obj [(''editor'', Bool True)])] ''bio'')"
    "get [(''bio'', Obj [(''editor'', Bool True)])] ''bio'' = Obj [(''editor'', Bool True)]
       \<and> distinct (map fst [(''editor'', Bool True)])"
    by (simp_all add: get_Cons)
  from action_override_unhides [OF h, of "[(''bio'', Str ''Custom Title'')]"] s
  have 1: "\<exists>st. resolve [(''bio'', Obj [(''type'', Str ''text'')])] [(''bio'', Bool False)]
               [(''bio'', Str ''Custom Title'')] ''list'' (Str ''id'') = Inr st
            \<and> ''bio'' \<in> fst ` set (result st)
            \<and> readProp (readProp (get (result st) ''bio'') ''config'') ''title''
                = Str ''Custom Title''"
    by auto
  from action_override_unhides [OF h, of "[(''bio'', Num 0)]"] z
  have 2: "\<exists>st. resolve [(''bio'', Obj [(''type'', Str ''text'')])] [(''bio'', Bool False)]
               [(''bio'', Num 0)] ''list'' (Str ''id'') = Inr st
            \<and> ''bio'' \<notin> fst ` set (result st)"
    by auto
  from action_override_unhides [OF h, of "[(''bio'', Obj [(''editor'', Bool True)])]"]
  obtain st where
    r: "resolve [(''bio'', Obj [(''type'', Str ''text'')])] [(''bio'', Bool False)]
               [(''bio'', Obj [(''editor'', Bool True)])] ''list'' (Str ''id'') = Inr st"
    and t: "truthy (get [(''bio'', Obj [(''editor'', Bool True)])] ''bio'') \<longrightarrow>
           ''bio'' \<in> fst ` set (result st)
           \<and> (\<exists>mf'. (''bio'', mf') \<in> set [(''bio'', Obj [(''type'', Str ''text'')])]
                 \<and> pickAttribute mf'
                 \<and> get (result st) ''bio''
                     = entry (coerced mf')
                         (workingConfig Undefined
                            (get [(''bio'', Obj [(''editor'', Bool True)])] ''bio'') ''bio''))
           \<and> (\<forall>s. get [(''bio'', Obj [(''editor'', Bool True)])] ''bio'' = Str s \<longrightarrow>
                 readProp (readProp (get (result st) ''bio'') ''config'') ''title'' = Str s)
           \<and> (get [(''bio'', Obj [(''editor'', Bool True)])] ''bio'' = Bool True \<longrightarrow>
                 readProp (readProp (get (result st) ''bio'') ''config'') ''title'' = Str ''bio'')
           \<and> (\<forall>a. get [(''bio'', Obj [(''editor'', Bool True)])] ''bio'' = Obj a
                    \<and> distinct (map fst a) \<longrightarrow>
                 readProp (readProp (get (result st) ''bio'') ''config'') ''title''
                   = (if truthy (get a ''title'') then mergeValue (Str ''bio'') (get a ''title'')
                      else Str ''bio'')
                 \<and> (\<forall>p. p \<noteq> ''key'' \<and> p \<noteq> ''title'' \<and> p \<noteq> ''required'' \<and> p \<noteq> ''type'' \<longrightarrow>
                       readProp (readProp (get (result st) ''bio'') ''config'') p
                         = mergeValue Undefined (get a p)))"
    by (elim exE conjE)
  note t [THEN mp, OF o(1), THEN conjunct2, THEN conjunct2, THEN conjunct2, THEN conjunct2]
  with o(2) have "readProp (readProp (get (result st) ''bio'') ''config'') ''title''
                   = (if truthy (get [(''editor'', Bool True)] ''title'')
                      then mergeValue (Str ''bio'') (get [(''editor'', Bool True)] ''title'')
                      else Str ''bio'')
                 \<and> (\<forall>p. p \<noteq> ''key'' \<and> p \<noteq> ''title'' \<and> p \<noteq> ''required'' \<and> p \<noteq> ''type'' \<longrightarrow>
                       readProp (readProp (get (result st) ''bio'') ''config'') p
                         = mergeValue Undefined (get [(''editor'', Bool True)] p))"
    by blast
  then have "readProp (readProp (get (result st) ''bio'') ''config'') ''title'' = Str ''bio''
       \<and> readProp (readProp (get (result st) ''bio'') ''config'') ''editor'' = Bool True"
    by (simp add: get_Cons get_Nil)
  with r have 3: "\<exists>st. resolve [(''bio'', Obj [(''type'', Str ''text'')])] [(''bio'', Bool False)]
               [(''bio'', Obj [(''editor'', Bool True)])] ''list'' (Str ''id'') = Inr st
            \<and> readProp (readProp (get (result st) ''bio'') ''config'') ''title'' = Str ''bio''
            \<and> readProp (readProp (get (result st) ''bio'') ''config'') ''editor'' = Bool True"
    by blast
  show ?thesis
    using h s(1) z o 1 2 3 by (intro conjI) simp_all
qed

text \<open>
  Claim C1 as stated fails for an action override that is defined and not \<open>false\<close>
  but falsy: with the global override \<open>false\<close> and the action override \<open>""\<close>
  the guard on line 217 skips the action layer and the field stays hidden.
\<close>

theorem action_override_unhides_counterexample:
  "get [(''bio'', Str '''')] ''bio'' \<noteq> Bool False
   \<and> get [(''bio'', Str '''')] ''bio'' \<noteq> Undefined
   \<and> resolve [(''bio'', Obj [(''type'', Str ''text'')])] [(''bio'', Bool False)]
        [(''bio'', Str '''')] ''list'' (Str ''id'')
      = Inr \<lparr>result = [], fieldsConfig = [(''bio'', Bool False)],
              actionFields = [(''bio'', Str '''')]\<rparr>"
  by code_simp

text \<open>
  Claim C7. Under the action \<^verbatim>\<open>add\<close> the attribute named by the identifier field
  has no entry in the result, whatever the attributes and the two override layers are;
  under every other action the identifier field name plays no part, so that attribute is
  resolved like any other.
\<close>

theorem identifier_skipped_on_add:
  "(\<exists>st. resolve attrs G A ''add'' (Str k) = Inr st
         \<and> k \<notin> fst ` set (result st) \<and> get (result st) k = Undefined)
   \<and> (ty \<noteq> ''add'' \<longrightarrow> resolve attrs G A ty idf = resolve attrs G A ty idf')"
proof -
  obtain st where st: "resolve attrs G A ''add'' (Str k) = Inr st"
    by (simp add: resolve_closed)
  have "k \<notin> fst ` set (result st)"
    using resolve_shown [OF st, of k] by (auto simp add: skipped_def)
  moreover have "get (result st) k = Undefined"
    using resolve_entry [OF st, of k] by (simp add: skipped_def)
  moreover have "prepareField ty idf = prepareField ty idf'" if "ty \<noteq> ''add''"
    using that by (intro ext) (simp add: prepareField_def)
  ultimately show ?thesis using st by (auto simp add: resolve_def)
qed

theorem identifier_skipped_on_add_witness:
  "''list'' \<noteq> ''add''
   \<and> resolve [(''id'', Str ''integer'')] [] [] ''list'' (Str ''id'')
       = resolve [(''id'', Str ''integer'')] [] [] ''list'' Undefined
   \<and> (\<exists>st. resolve [(''id'', Str ''integer'')] [] [(''id'', Str ''Id'')] ''add'' (Str ''id'') = Inr st
          \<and> ''id'' \<notin> fst ` set (result st))"
  using identifier_skipped_on_add [of "[(''id'', Str ''integer'')]" "[]" "[]" "''id''" "''list''" "Str ''id''" Undefined]
    identifier_skipped_on_add [of "[(''id'', Str ''integer'')]" "[]" "[(''id'', Str ''Id'')]" "''id''" "''list''" "Str ''id''" Undefined]
  by auto




text \<open>
  Claim C5, as the code has it. The resolver returns and leaves both override maps
  with the keys they had, in the same order. An override of an attribute that is not
  resolved (one that fails the pick, or the identifier under \<^verbatim>\<open>add\<close>) and every
  override that is not a plain object is left as it was. A plain-object override of a
  resolved attribute \<open>k\<close> is updated in place, at either layer: its \<open>key\<close> is set
  to \<open>k\<close> when it was absent or falsy, its \<open>title\<close> is set to \<open>k\<close> when it was
  absent or falsy, every other property keeps its value, and its properties are the
  ones it had together with \<open>key\<close> and \<open>title\<close>. So the normalizer's defaulting
  is the only write to the caller's objects; the merges write to the fresh working
  config.
\<close>

theorem overrides_frame:
  "\<exists>st. resolve attrs G A ty idf = Inr st
     \<and> map fst (fieldsConfig st) = map fst G \<and> map fst (actionFields st) = map fst A
     \<and> (\<forall>k. \<not> ((\<exists>mf. (k, mf) \<in> set attrs \<and> pickAttribute mf)
                 \<and> \<not> (ty = ''add'' \<and> Str k = idf)) \<longrightarrow>
           get (fieldsConfig st) k = get G k \<and> get (actionFields st) k = get A k)
     \<and> (\<forall>k. \<not> isPlainObject (get G k) \<longrightarrow> get (fieldsConfig st) k = get G k)
     \<and> (\<forall>k. \<not> isPlainObject (get A k) \<longrightarrow> get (actionFields st) k = get A k)
     \<and> (\<forall>k ps. (\<exists>mf. (k, mf) \<in> set attrs \<and> pickAttribute mf)
              \<and> \<not> (ty = ''add'' \<and> Str k = idf) \<and> get G k = Obj ps \<longrightarrow>
           (\<exists>ps'. get (fieldsConfig st) k = Obj ps'
              \<and> get ps' ''key'' = (if truthy (get ps ''key'') then get ps ''key'' else Str k)
              \<and> get ps' ''title'' = (if truthy (get ps ''title'') then get ps ''title'' else Str k)
              \<and> (\<forall>p. p \<noteq> ''key'' \<and> p \<noteq> ''title'' \<longrightarrow> get ps' p = get ps p)
              \<and> fst ` set ps' = fst ` set ps \<union> {''key'', ''title''}))
     \<and> (\<forall>k ps. (\<exists>mf. (k, mf) \<in> set attrs \<and> pickAttribute mf)
              \<and> \<not> (ty = ''add'' \<and> Str k = idf) \<and> get A k = Obj ps \<longrightarrow>
           (\<exists>ps'. get (actionFields st) k = Obj ps'
              \<and> get ps' ''key'' = (if truthy (get ps ''key'') then get ps ''key'' else Str k)
              \<and> get ps' ''title'' = (if truthy (get ps ''title'') then get ps ''title'' else Str k)
              \<and> (\<forall>p. p \<noteq> ''key'' \<and> p \<noteq> ''title'' \<longrightarrow> get ps' p = get ps p)
              \<and> fst ` set ps' = fst ` set ps \<union> {''key'', ''title''}))"
proof -
  let ?ps = "filter (\<lambda>(key, val). pickAttribute val) attrs"
  let ?init = "\<lparr>result = [], fieldsConfig = G, actionFields = A\<rparr>"
  let ?st = "run ty idf ?ps ?init"
  have r: "resolve attrs G A ty idf = Inr ?st"
    by (rule resolve_closed)
  have keys: "map fst (fieldsConfig ?st) = map fst G" "map fst (actionFields ?st) = map fst A"
    using run_keys [of ty idf ?ps ?init] by simp_all
  have v: "visited ty idf ?ps k =
      ((\<exists>mf. (k, mf) \<in> set attrs \<and> pickAttribute mf) \<and> \<not> (ty = ''add'' \<and> Str k = idf))" for k
    by (simp add: visited_filter skipped_def)
  have g: "get (fieldsConfig ?st) k =
      (if visited ty idf ?ps k then touched (get G k) k else get G k)" for k
    using run_fieldsConfig_own [of ty idf ?ps ?init k] by simp
  have a: "get (actionFields ?st) k =
      (if visited ty idf ?ps k then touched (get A k) k else get A k)" for k
    using run_actionFields_own [of ty idf ?ps ?init k] by simp
  have nv: "\<forall>k. \<not> ((\<exists>mf. (k, mf) \<in> set attrs \<and> pickAttribute mf)
                 \<and> \<not> (ty = ''add'' \<and> Str k = idf)) \<longrightarrow>
           get (fieldsConfig ?st) k = get G k \<and> get (actionFields ?st) k = get A k"
  proof (intro allI impI)
    fix k
    assume "\<not> ((\<exists>mf. (k, mf) \<in> set attrs \<and> pickAttribute mf)
                 \<and> \<not> (ty = ''add'' \<and> Str k = idf))"
    then have "\<not> visited ty idf ?ps k"
      unfolding v .
    then show "get (fieldsConfig ?st) k = get G k \<and> get (actionFields ?st) k = get A k"
      by (simp add: g a)
  qed
  have ng: "\<forall>k. \<not> isPlainObject (get G k) \<longrightarrow> get (fieldsConfig ?st) k = get G k"
    unfolding g by (simp add: touched_nonplain)
  have na: "\<forall>k. \<not> isPlainObject (get A k) \<longrightarrow> get (actionFields ?st) k = get A k"
    unfolding a by (simp add: touched_nonplain)
  have fg: "\<forall>k ps. (\<exists>mf. (k, mf) \<in> set attrs \<and> pickAttribute mf)
              \<and> \<not> (ty = ''add'' \<and> Str k = idf) \<and> get G k = Obj ps \<longrightarrow>
           (\<exists>ps'. get (fieldsConfig ?st) k = Obj ps'
              \<and> get ps' ''key'' = (if truthy (get ps ''key'') then get ps ''key'' else Str k)
              \<and> get ps' ''title'' = (if truthy (get ps ''title'') then get ps ''title'' else Str k)
              \<and> (\<forall>p. p \<noteq> ''key'' \<and> p \<noteq> ''title'' \<longrightarrow> get ps' p = get ps p)
              \<and> fst ` set ps' = fst ` set ps \<union> {''key'', ''title''})"
  proof (intro allI impI)
    fix k ps
    assume h: "(\<exists>mf. (k, mf) \<in> set attrs \<and> pickAttribute mf)
              \<and> \<not> (ty = ''add'' \<and> Str k = idf) \<and> get G k = Obj ps"
    then have "visited ty idf ?ps k" and "get G k = Obj ps"
      unfolding v by blast+
    then have "get (fieldsConfig ?st) k = touched (Obj ps) k"
      by (simp add: g)
    then show "\<exists>ps'. get (fieldsConfig ?st) k = Obj ps'
              \<and> get ps' ''key'' = (if truthy (get ps ''key'') then get ps ''key'' else Str k)
              \<and> get ps' ''title'' = (if truthy (get ps ''title'') then get ps ''title'' else Str k)
              \<and> (\<forall>p. p \<noteq> ''key'' \<and> p \<noteq> ''title'' \<longrightarrow> get ps' p = get ps p)
              \<and> fst ` set ps' = fst ` set ps \<union> {''key'', ''title''}"
      using touched_object [of ps k] by simp
  qed
  have fa: "\<forall>k ps. (\<exists>mf. (k, mf) \<in> set attrs \<and> pickAttribute mf)
              \<and> \<not> (ty = ''add'' \<and> Str k = idf) \<and> get A k = Obj ps \<longrightarrow>
           (\<exists>ps'. get (actionFields ?st) k = Obj ps'
              \<and> get ps' ''key'' = (if truthy (get ps ''key'') then get ps ''key'' else Str k)
              \<and> get ps' ''title'' = (if truthy (get ps ''title'') then get ps ''title'' else Str k)
              \<and> (\<forall>p. p \<noteq> ''key'' \<and> p \<noteq> ''title'' \<longrightarrow> get ps' p = get ps p)
              \<and> fst ` set ps' = fst ` set ps \<union> {''key'', ''title''})"
  proof (intro allI impI)
    fix k ps
    assume h: "(\<exists>mf. (k, mf) \<in> set attrs \<and> pickAttribute mf)
              \<and> \<not> (ty = ''add'' \<and> Str k = idf) \<and> get A k = Obj ps"
    then have "visited ty idf ?ps k" and "get A k = Obj ps"
      unfolding v by blast+
    then have "get (actionFields ?st) k = touched (Obj ps) k"
      by (simp add: a)
    then show "\<exists>ps'. get (actionFields ?st) k = Obj ps'
              \<and> get ps' ''key'' = (if truthy (get ps ''key'') then get ps ''key'' else Str k)
              \<and> get ps' ''title'' = (if truthy (get ps ''title'') then get ps ''title'' else Str k)
              \<and> (\<forall>p. p \<noteq> ''key'' \<and> p \<noteq> ''title'' \<longrightarrow> get ps' p = get ps p)
              \<and> fst ` set ps' = fst ` set ps \<union> {''key'', ''title''}"
      using touched_object [of ps k] by simp
  qed
  show ?thesis
    by (rule exI [of _ ?st]) (intro conjI r keys nv ng na fg fa)
qed

theorem overrides_frame_witness:
  "(\<exists>mf. (''bio'', mf) \<in> set [(''bio'', Str ''text'')] \<and> pickAttribute mf)
   \<and> \<not> (''list'' = ''add'' \<and> Str ''bio'' = Str ''id'')
   \<and> get [(''bio'', Obj [(''editor'', Bool True)]), (''age'', Obj [])] ''bio''
        = Obj [(''editor'', Bool True)]
   \<and> \<not> isPlainObject (get [(''bio'', Str ''Bio'')] ''bio'')
   \<and> \<not> ((\<exists>mf. (''age'', mf) \<in> set [(''bio'', Str ''text'')] \<and> pickAttribute mf)
          \<and> \<not> (''list'' = ''add'' \<and> Str ''age'' = Str ''id''))
   \<and> ''editor'' \<noteq> ''key'' \<and> ''editor'' \<noteq> ''title''
   \<and> (\<exists>st. resolve [(''bio'', Str ''text'')]
               [(''bio'', Obj [(''editor'', Bool True)]), (''age'', Obj [])]
               [(''bio'', Str ''Bio'')] ''list'' (Str ''id'') = Inr st
          \<and> get (actionFields st) ''bio'' = Str ''Bio''
          \<and> get (fieldsConfig st) ''age'' = Obj []
          \<and> readProp (get (fieldsConfig st) ''bio'') ''key'' = Str ''bio''
          \<and> readProp (get (fieldsConfig st) ''bio'') ''title'' = Str ''bio''
          \<and> readProp (get (fieldsConfig st) ''bio'') ''editor'' = Bool True)"
proof -
  have v: "(\<exists>mf. (''bio'', mf) \<in> set [(''bio'', Str ''text'')] \<and> pickAttribute mf)
      \<and> \<not> (''list'' = ''add'' \<and> Str ''bio'' = Str ''id'')
      \<and> get [(''bio'', Obj [(''editor'', Bool True)]), (''age'', Obj [])] ''bio''
          = Obj [(''editor'', Bool True)]"
    by (simp add: pickAttribute_def isString_def readProp_def get_Cons)
  have n: "\<not> isPlainObject (get [(''bio'', Str ''Bio'')] ''bio'')"
    by (simp add: get_Cons isPlainObject_def)
  have u: "\<not> ((\<exists>mf. (''age'', mf) \<in> set [(''bio'', Str ''text'')] \<and> pickAttribute mf)
          \<and> \<not> (''list'' = ''add'' \<and> Str ''age'' = Str ''id''))"
    by simp
  from overrides_frame [of "[(''bio'', Str ''text'')]"
      "[(''bio'', Obj [(''editor'', Bool True)]), (''age'', Obj [])]"
      "[(''bio'', Str ''Bio'')]" "''list''" "Str ''id''"]
  obtain st where
    r: "resolve [(''bio'', Str ''text'')]
          [(''bio'', Obj [(''editor'', Bool True)]), (''age'', Obj [])]
          [(''bio'', Str ''Bio'')] ''list'' (Str ''id'') = Inr st"
    and nv: "\<forall>k. \<not> ((\<exists>mf. (k, mf) \<in> set [(''bio'', Str ''text'')] \<and> pickAttribute mf)
                 \<and> \<not> (''list'' = ''add'' \<and> Str k = Str ''id'')) \<longrightarrow>
           get (fieldsConfig st) k
             = get [(''bio'', Obj [(''editor'', Bool True)]), (''age'', Obj [])] k
           \<and> get (actionFields st) k = get [(''bio'', Str ''Bio'')] k"
    and a: "\<forall>k. \<not> isPlainObject (get [(''bio'', Str ''Bio'')] k) \<longrightarrow>
              get (actionFields st) k = get [(''bio'', Str ''Bio'')] k"
    and g: "\<forall>k ps. (\<exists>mf. (k, mf) \<in> set [(''bio'', Str ''text'')] \<and> pickAttribute mf)
              \<and> \<not> (''list'' = ''add'' \<and> Str k = Str ''id'')
              \<and> get [(''bio'', Obj [(''editor'', Bool True)]), (''age'', Obj [])] k = Obj ps \<longrightarrow>
           (\<exists>ps'. get (fieldsConfig st) k = Obj ps'
              \<and> get ps' ''key'' = (if truthy (get ps ''key'') then get ps ''key'' else Str k)
              \<and> get ps' ''title'' = (if truthy (get ps ''title'') then get ps ''title'' else Str k)
              \<and> (\<forall>p. p \<noteq> ''key'' \<and> p \<noteq> ''title'' \<longrightarrow> get ps' p = get ps p)
              \<and> fst ` set ps' = fst ` set ps \<union> {''key'', ''title''})"
    by (elim exE conjE)
  from a n have 1: "get (actionFields st) ''bio'' = Str ''Bio''"
    by (simp add: get_Cons)
  from nv u have 2: "get (fieldsConfig st) ''age'' = Obj []"
    by (simp add: get_Cons)
  from g [rule_format, OF v] obtain ps' where
    "get (fieldsConfig st) ''bio'' = Obj ps'"
    "get ps' ''key'' = (if truthy (get [(''editor'', Bool True)] ''key'')
                        then get [(''editor'', Bool True)] ''key'' else Str ''bio'')"
    "get ps' ''title'' = (if truthy (get [(''editor'', Bool True)] ''title'')
                          then get [(''editor'', Bool True)] ''title'' else Str ''bio'')"
    "\<forall>p. p \<noteq> ''key'' \<and> p \<noteq> ''title'' \<longrightarrow> get ps' p = get [(''editor'', Bool True)] p"
    by (elim exE conjE)
  then have 3: "readProp (get (fieldsConfig st) ''bio'') ''key'' = Str ''bio''
      \<and> readProp (get (fieldsConfig st) ''bio'') ''title'' = Str ''bio''
      \<and> readProp (get (fieldsConfig st) ''bio'') ''editor'' = Bool True"
    by (simp add: readProp_def get_Cons get_Nil)
  from r 1 2 3 have "\<exists>st. resolve [(''bio'', Str ''text'')]
               [(''bio'', Obj [(''editor'', Bool True)]), (''age'', Obj [])]
               [(''bio'', Str ''Bio'')] ''list'' (Str ''id'') = Inr st
          \<and> get (actionFields st) ''bio'' = Str ''Bio''
          \<and> get (fieldsConfig st) ''age'' = Obj []
          \<and> readProp (get (fieldsConfig st) ''bio'') ''key'' = Str ''bio''
          \<and> readProp (get (fieldsConfig st) ''bio'') ''title'' = Str ''bio''
          \<and> readProp (get (fieldsConfig st) ''bio'') ''editor'' = Bool True"
    by blast
  with v n u show ?thesis
    by (intro conjI) simp_all
qed

text \<open>
  Claim C5 as stated fails: the global override \<open>{editor: true}\<close> of \<open>bio\<close> is
  handed to the normalizer on line 212, which assigns its \<open>key\<close> and \<open>title\<close>
  on lines 115 and 118, so the caller's override object is changed by the call.
\<close>

theorem overrides_frame_counterexample:
  "resolve [(''bio'', Str ''text'')] [(''bio'', Obj [(''editor'', Bool True)])] []
      ''list'' (Str ''id'')
    = Inr \<lparr>result =
             [(''bio'',
               Obj [(''config'',
                     Obj [(''key'', Str ''bio''), (''title'', Str ''bio''),
                          (''editor'', Bool True), (''required'', Bool False),
                          (''type'', Str ''text'')]),
                    (''model'', Obj [(''type'', Str ''text'')])])],
            fieldsConfig =
              [(''bio'', Obj [(''editor'', Bool True), (''key'', Str ''bio''),
                              (''title'', Str ''bio'')])],
            actionFields = []\<rparr>
   \<and> [(''bio'', Obj [(''editor'', Bool True), (''key'', Str ''bio''), (''title'', Str ''bio'')])]
       \<noteq> [(''bio'', Obj [(''editor'', Bool True)])]"
  by code_simp

text \<open>
  Claim C8, as the code has it. For every entry of the result, with \<open>modelField\<close> the
  coerced attribute it came from and the working config the merge of the two layers:
  \<open>required\<close> is \<^verbatim>\<open>Boolean(config.required || modelField.required)\<close>, so either
  side forces it and neither undoes the other, and \<open>type\<close> is
  \<^verbatim>\<open>config.type || modelField.type\<close>, that is the working config's type when that
  is truthy and the model's declared type otherwise. An attribute declared by the
  string shorthand with no override at either layer resolves to that type and to
  \<open>required\<close> \<open>false\<close> (attribute names being distinct).
\<close>

theorem required_and_type:
  "\<exists>st. resolve attrs G A ty idf = Inr st
     \<and> (\<forall>k \<in> fst ` set (result st).
           \<exists>mf. (k, mf) \<in> set attrs \<and> pickAttribute mf
             \<and> readProp (get (result st) k) ''model'' = coerced mf
             \<and> readProp (readProp (get (result st) k) ''config'') ''required''
                 = Bool (truthy (js_or (get (workingConfig (get G k) (get A k) k) ''required'')
                                       (readProp (coerced mf) ''required'')))
             \<and> readProp (readProp (get (result st) k) ''config'') ''type''
                 = js_or (get (workingConfig (get G k) (get A k) k) ''type'')
                         (readProp (coerced mf) ''type''))
     \<and> (\<forall>k s. distinct (map fst attrs) \<and> (k, Str s) \<in> set attrs
             \<and> \<not> (ty = ''add'' \<and> Str k = idf)
             \<and> get G k = Undefined \<and> get A k = Undefined \<longrightarrow>
           readProp (readProp (get (result st) k) ''config'') ''type'' = Str s
           \<and> readProp (readProp (get (result st) k) ''config'') ''required'' = Bool False)"
proof -
  obtain st where st: "resolve attrs G A ty idf = Inr st"
    by (simp add: resolve_closed)
  have a: "\<exists>mf. (k, mf) \<in> set attrs \<and> pickAttribute mf
             \<and> readProp (get (result st) k) ''model'' = coerced mf
             \<and> readProp (readProp (get (result st) k) ''config'') ''required''
                 = Bool (truthy (js_or (get (workingConfig (get G k) (get A k) k) ''required'')
                                       (readProp (coerced mf) ''required'')))
             \<and> readProp (readProp (get (result st) k) ''config'') ''type''
                 = js_or (get (workingConfig (get G k) (get A k) k) ''type'')
                         (readProp (coerced mf) ''type'')"
    if "k \<in> fst ` set (result st)" for k
  proof -
    from resolve_emitted [OF st that] obtain mf where
      mf: "(k, mf) \<in> set attrs" "pickAttribute mf"
      and e: "get (result st) k = entry (coerced mf) (workingConfig (get G k) (get A k) k)"
      by blast
    show ?thesis
      using mf
      by (auto simp add: e entry_model entry_config_required entry_config_type js_or_def)
  qed
  have b: "readProp (readProp (get (result st) k) ''config'') ''type'' = Str s
           \<and> readProp (readProp (get (result st) k) ''config'') ''required'' = Bool False"
    if h: "distinct (map fst attrs) \<and> (k, Str s) \<in> set attrs
             \<and> \<not> (ty = ''add'' \<and> Str k = idf)
             \<and> get G k = Undefined \<and> get A k = Undefined" for k s
  proof -
    have p: "pickAttribute (Str s)"
      by (simp add: pickAttribute_def isString_def readProp_def)
    have nh: "\<not> hidden (lookup G k) (lookup A k)"
      using h by (simp add: hidden_lookup_absent)
    have e: "get (result st) k = entry (coerced (Str s)) (workingConfig (get G k) (get A k) k)"
      using h p nh by (intro resolve_entry_distinct [OF st]) simp_all
    have w: "workingConfig (get G k) (get A k) k = [(''key'', Str k), (''title'', Str k)]"
      using h by (simp add: workingConfig_default)
    show ?thesis
      by (simp add: e w entry_config_required entry_config_type get_Cons get_Nil)
        (simp add: coerced_def isString_def readProp_def get_Cons get_Nil)
  qed
  from st a b show ?thesis by blast
qed

theorem required_and_type_witness:
  "distinct (map fst [(''name'', Str ''string'')])
   \<and> (''name'', Str ''string'') \<in> set [(''name'', Str ''string'')]
   \<and> \<not> (''list'' = ''add'' \<and> Str ''name'' = Str ''id'')
   \<and> get [] ''name'' = Undefined
   \<and> (\<exists>st. resolve [(''name'', Str ''string'')] [] [] ''list'' (Str ''id'') = Inr st
          \<and> ''name'' \<in> fst ` set (result st)
          \<and> readProp (get (result st) ''name'') ''model'' = Obj [(''type'', Str ''string'')]
          \<and> readProp (readProp (get (result st) ''name'') ''config'') ''type'' = Str ''string''
          \<and> readProp (readProp (get (result st) ''name'') ''config'') ''required'' = Bool False)"
proof -
  have h: "distinct (map fst [(''name'', Str ''string'')])
     \<and> (''name'', Str ''string'') \<in> set [(''name'', Str ''string'')]
     \<and> \<not> (''list'' = ''add'' \<and> Str ''name'' = Str ''id'')
     \<and> get [] ''name'' = Undefined \<and> get [] ''name'' = Undefined"
    by (simp add: get_Nil)
  from required_and_type [of "[(''name'', Str ''string'')]" "[]" "[]" "''list''" "Str ''id''"]
  obtain st where
    r: "resolve [(''name'', Str ''string'')] [] [] ''list'' (Str ''id'') = Inr st"
    and a: "\<forall>k \<in> fst ` set (result st).
           \<exists>mf. (k, mf) \<in> set [(''name'', Str ''string'')] \<and> pickAttribute mf
             \<and> readProp (get (result st) k) ''model'' = coerced mf
             \<and> readProp (readProp (get (result st) k) ''config'') ''required''
                 = Bool (truthy (js_or (get (workingConfig (get [] k) (get [] k) k) ''required'')
                                       (readProp (coerced mf) ''required'')))
             \<and> readProp (readProp (get (result st) k) ''config'') ''type''
                 = js_or (get (workingConfig (get [] k) (get [] k) k) ''type'')
                         (readProp (coerced mf) ''type'')"
    and b: "\<forall>k s. distinct (map fst [(''name'', Str ''string'')])
             \<and> (k, Str s) \<in> set [(''name'', Str ''string'')]
             \<and> \<not> (''list'' = ''add'' \<and> Str k = Str ''id'')
             \<and> get [] k = Undefined \<and> get [] k = Undefined \<longrightarrow>
           readProp (readProp (get (result st) k) ''config'') ''type'' = Str s
           \<and> readProp (readProp (get (result st) k) ''config'') ''required'' = Bool False"
    by (elim exE conjE)
  from b h have c: "readProp (readProp (get (result st) ''name'') ''config'') ''type'' = Str ''string''
      \<and> readProp (readProp (get (result st) ''name'') ''config'') ''required'' = Bool False"
    by blast
  then have "get (result st) ''name'' \<noteq> Undefined"
    by (auto simp add: readProp_def)
  then have m: "''name'' \<in> fst ` set (result st)"
    by (rule get_present)
  with a have "\<exists>mf. (''name'', mf) \<in> set [(''name'', Str ''string'')]
      \<and> readProp (get (result st) ''name'') ''model'' = coerced mf"
    by blast
  then have "readProp (get (result st) ''name'') ''model'' = Obj [(''type'', Str ''string'')]"
    by (auto simp add: coerced_def isString_def)
  with r m c h show ?thesis by blast
qed

text \<open>
  Claim C8 as stated fails for a type that is present but falsy: the action override
  \<open>{type: ""}\<close> puts the property \<open>type\<close> into the working config, and the
  resolved type is the model's \<open>"text"\<close>, not the working config's \<open>""\<close>.
\<close>

theorem required_and_type_counterexample:
  "''type'' \<in> fst ` set (workingConfig (get [] ''bio'')
                           (get [(''bio'', Obj [(''type'', Str '''')])] ''bio'') ''bio'')
   \<and> get (workingConfig (get [] ''bio'')
            (get [(''bio'', Obj [(''type'', Str '''')])] ''bio'') ''bio'') ''type'' = Str ''''
   \<and> resolve [(''bio'', Obj [(''type'', Str ''text'')])] []
        [(''bio'', Obj [(''type'', Str '''')])] ''list'' (Str ''id'')
      = Inr \<lparr>result =
               [(''bio'',
                 Obj [(''config'',
                       Obj [(''key'', Str ''bio''), (''title'', Str ''bio''),
                            (''type'', Str ''text''), (''required'', Bool False)]),
                      (''model'', Obj [(''type'', Str ''text'')])])],
              fieldsConfig = [],
              actionFields =
                [(''bio'', Obj [(''type'', Str ''''), (''key'', Str ''bio''),
                                (''title'', Str ''bio'')])]\<rparr>"
  by code_simp

text \<open>
  Claim C9, as the code has it. Every entry of the result pairs a config with the
  coerced attribute it came from, and in that config \<open>key\<close>, \<open>title\<close>,
  \<open>required\<close> and \<open>type\<close> are all present; \<open>key\<close> and \<open>title\<close> are each
  a truthy value or the attribute's name; \<open>required\<close> is a boolean; \<open>type\<close> is
  truthy whenever the model attribute declares a truthy type. When neither layer gives
  a plain object for the attribute, \<open>key\<close> is the attribute's name and \<open>title\<close>
  is a string.
\<close>

theorem emitted_invariant:
  "\<exists>st. resolve attrs G A ty idf = Inr st
     \<and> (\<forall>k \<in> fst ` set (result st).
           \<exists>cfg mf. (k, mf) \<in> set attrs \<and> pickAttribute mf
             \<and> get (result st) k = Obj [(''config'', Obj cfg), (''model'', coerced mf)]
             \<and> {''key'', ''title'', ''required'', ''type''} \<subseteq> fst ` set cfg
             \<and> (truthy (get cfg ''key'') \<or> get cfg ''key'' = Str k)
             \<and> (truthy (get cfg ''title'') \<or> get cfg ''title'' = Str k)
             \<and> (\<exists>b. get cfg ''required'' = Bool b)
             \<and> (truthy (readProp (coerced mf) ''type'') \<longrightarrow> truthy (get cfg ''type''))
             \<and> (\<not> isPlainObject (get G k) \<and> \<not> isPlainObject (get A k) \<longrightarrow>
                   get cfg ''key'' = Str k \<and> isString (get cfg ''title'')))"
proof -
  obtain st where st: "resolve attrs G A ty idf = Inr st"
    by (simp add: resolve_closed)
  have "\<exists>cfg mf. (k, mf) \<in> set attrs \<and> pickAttribute mf
             \<and> get (result st) k = Obj [(''config'', Obj cfg), (''model'', coerced mf)]
             \<and> {''key'', ''title'', ''required'', ''type''} \<subseteq> fst ` set cfg
             \<and> (truthy (get cfg ''key'') \<or> get cfg ''key'' = Str k)
             \<and> (truthy (get cfg ''title'') \<or> get cfg ''title'' = Str k)
             \<and> (\<exists>b. get cfg ''required'' = Bool b)
             \<and> (truthy (readProp (coerced mf) ''type'') \<longrightarrow> truthy (get cfg ''type''))
             \<and> (\<not> isPlainObject (get G k) \<and> \<not> isPlainObject (get A k) \<longrightarrow>
                   get cfg ''key'' = Str k \<and> isString (get cfg ''title''))"
    if "k \<in> fst ` set (result st)" for k
  proof -
    from resolve_emitted [OF st that] obtain mf where
      mf: "(k, mf) \<in> set attrs" "pickAttribute mf"
      and e: "get (result st) k = entry (coerced mf) (workingConfig (get G k) (get A k) k)"
      by blast
    from entry_invariant [of "coerced mf" "get G k" "get A k" k] mf show ?thesis
      unfolding e by blast
  qed
  with st show ?thesis by blast
qed

theorem emitted_invariant_witness:
  "\<exists>st. resolve [(''name'', Str ''string'')] [] [(''name'', Str ''Full name'')] ''list'' (Str ''id'')
           = Inr st
     \<and> ''name'' \<in> fst ` set (result st)
     \<and> \<not> isPlainObject (get [] ''name'')
     \<and> \<not> isPlainObject (get [(''name'', Str ''Full name'')] ''name'')
     \<and> (\<exists>cfg mf. get (result st) ''name'' = Obj [(''config'', Obj cfg), (''model'', coerced mf)]
            \<and> truthy (readProp (coerced mf) ''type'')
            \<and> get cfg ''key'' = Str ''name'' \<and> isString (get cfg ''title'')
            \<and> (\<exists>b. get cfg ''required'' = Bool b) \<and> truthy (get cfg ''type''))"
proof -
  have c: "resolve [(''name'', Str ''string'')] [] [(''name'', Str ''Full name'')] ''list'' (Str ''id'')
      = Inr \<lparr>result =
               [(''name'',
                 Obj [(''config'',
                       Obj [(''key'', Str ''name''), (''title'', Str ''Full name''),
                            (''required'', Bool False), (''type'', Str ''string'')]),
                      (''model'', Obj [(''type'', Str ''string'')])])],
              fieldsConfig = [], actionFields = [(''name'', Str ''Full name'')]\<rparr>"
    by code_simp
  have n: "\<not> isPlainObject (get [] ''name'')"
    "\<not> isPlainObject (get [(''name'', Str ''Full name'')] ''name'')"
    by (simp_all add: get_Nil get_Cons isPlainObject_def)
  from emitted_invariant [of "[(''name'', Str ''string'')]" "[]" "[(''name'', Str ''Full name'')]"
      "''list''" "Str ''id''"]
  obtain st where
    r: "resolve [(''name'', Str ''string'')] [] [(''name'', Str ''Full name'')] ''list'' (Str ''id'')
          = Inr st"
    and a: "\<forall>k \<in> fst ` set (result st).
           \<exists>cfg mf. (k, mf) \<in> set [(''name'', Str ''string'')] \<and> pickAttribute mf
             \<and> get (result st) k = Obj [(''config'', Obj cfg), (''model'', coerced mf)]
             \<and> {''key'', ''title'', ''required'', ''type''} \<subseteq> fst ` set cfg
             \<and> (truthy (get cfg ''key'') \<or> get cfg ''key'' = Str k)
             \<and> (truthy (get cfg ''title'') \<or> get cfg ''title'' = Str k)
             \<and> (\<exists>b. get cfg ''required'' = Bool b)
             \<and> (truthy (readProp (coerced mf) ''type'') \<longrightarrow> truthy (get cfg ''type''))
             \<and> (\<not> isPlainObject (get [] k)
                  \<and> \<not> isPlainObject (get [(''name'', Str ''Full name'')] k) \<longrightarrow>
                   get cfg ''key'' = Str k \<and> isString (get cfg ''title''))"
    by (elim exE conjE)
  from r c have m: "''name'' \<in> fst ` set (result st)"
    by auto
  with a obtain cfg mf where
    f: "(''name'', mf) \<in> set [(''name'', Str ''string'')]"
      "get (result st) ''name'' = Obj [(''config'', Obj cfg), (''model'', coerced mf)]"
      "\<exists>b. get cfg ''required'' = Bool b"
      "truthy (readProp (coerced mf) ''type'') \<longrightarrow> truthy (get cfg ''type'')"
      "\<not> isPlainObject (get [] ''name'')
         \<and> \<not> isPlainObject (get [(''name'', Str ''Full name'')] ''name'') \<longrightarrow>
       get cfg ''key'' = Str ''name'' \<and> isString (get cfg ''title'')"
    by blast
  from f(1) have t: "truthy (readProp (coerced mf) ''type'')"
    by (simp add: coerced_def isString_def readProp_def get_Cons)
  with f n r m show ?thesis by blast
qed

text \<open>
  Claim C9 as stated fails: an object override passes its \<open>title\<close> through
  whatever its type, and an attribute declared without a type, with no override giving
  one, resolves to the type \<open>undefined\<close>. Here the title is the number \<open>5\<close>.
\<close>

theorem emitted_invariant_counterexample:
  "resolve [(''bio'', Obj [(''required'', Bool True)])] []
      [(''bio'', Obj [(''title'', Num 5)])] ''list'' (Str ''id'')
    = Inr \<lparr>result =
             [(''bio'',
               Obj [(''config'',
                     Obj [(''key'', Str ''bio''), (''title'', Num 5),
                          (''required'', Bool True), (''type'', Undefined)]),
                    (''model'', Obj [(''required'', Bool True)])])],
            fieldsConfig = [],
            actionFields = [(''bio'', Obj [(''title'', Num 5), (''key'', Str ''bio'')])]\<rparr>
   \<and> \<not> isString (Num 5)"
  by code_simp


end
